theory Spec2Isabelle
  imports Main
begin

section \<open>Data model (asset\_management/models.py)\<close>

text \<open>
  \<open>Asset.STATUS_CHOICES\<close>: the five values the \<open>status\<close> column takes.
\<close>

datatype status = AVAILABLE | ASSIGNED | MISSING | MAINTENANCE | RETIRED

text \<open>
  A row of the \<open>Asset\<close> table, with the columns the network reconciliation reads or
  writes. The table is a list of rows; the primary key of a row (\<open>asset.id\<close>) is its
  position in the list, so \<open>asset.save()\<close> on a loaded row is an update at that
  position. Rows are neither inserted nor deleted by the code modelled here.
  \<open>mac_address\<close> and \<open>ip_address\<close> are nullable columns, \<open>network_last_seen\<close> a
  nullable timestamp (seconds on some clock).
\<close>

record asset =
  asset_tag :: string
  name :: string
  mac_address :: "string option"
  ip_address :: "string option"
  status :: status
  location :: string
  network_last_seen :: "nat option"

type_synonym asset_table = "asset list"

text \<open>
  The dictionary that \<open>NetworkScanner._scan_host\<close> builds for a live host.
\<close>

record scan_result =
  res_ip_address :: string
  res_mac_address :: "string option"
  res_is_alive :: bool
  res_asset_found :: bool
  res_asset_id :: "nat option"
  res_asset_tag :: "string option"

section \<open>Case-insensitive lookup by hardware address\<close>

text \<open>
  ASCII case folding, as the database does for \<open>mac_address__iexact\<close>.
\<close>

definition upper_char :: "char \<Rightarrow> char" where
  "upper_char c =
     (case map_of (zip ''abcdefghijklmnopqrstuvwxyz'' ''ABCDEFGHIJKLMNOPQRSTUVWXYZ'') c of
        Some u \<Rightarrow> u
      | None \<Rightarrow> c)"

definition upper :: "string \<Rightarrow> string" where
  "upper s = map upper_char s"

definition iexact :: "string option \<Rightarrow> string \<Rightarrow> bool" where
  "iexact col v = (case col of None \<Rightarrow> False | Some s \<Rightarrow> upper s = upper v)"

text \<open>
  \<open>Asset.objects.get(mac_address__iexact=m)\<close>: the one matching row, or one of the two
  exceptions of \<open>QuerySet.get\<close>.
\<close>

datatype get_outcome = DoesNotExist | MultipleObjectsReturned | Found nat

definition matching_rows :: "asset_table \<Rightarrow> string \<Rightarrow> nat list" where
  "matching_rows db m = filter (\<lambda>i. iexact (mac_address (db ! i)) m) [0..<length db]"

definition get_by_mac :: "asset_table \<Rightarrow> string \<Rightarrow> get_outcome" where
  "get_by_mac db m =
     (case matching_rows db m of
        [] \<Rightarrow> DoesNotExist
      | [i] \<Rightarrow> Found i
      | _ \<Rightarrow> MultipleObjectsReturned)"

text \<open>
  Python truthiness of \<open>result['mac_address']\<close>: neither \<open>None\<close> nor the empty string.
\<close>

definition truthy :: "string option \<Rightarrow> bool" where
  "truthy m = (case m of None \<Rightarrow> False | Some s \<Rightarrow> s \<noteq> [])"

section \<open>Asset.save\<close>

text \<open>
  On the way to the database a \<open>GenericIPAddressField\<close> normalises its value
  (\<open>get_prep_value\<close>): a text that contains a colon goes through Django's
  \<open>clean_ipv6_address\<close>, here the parameter \<open>clean\<close>, and is stored as it is when that
  raises \<open>ValidationError\<close> (\<open>None\<close>). Every other text is stored as it is.
\<close>

definition get_prep_value :: "(string \<Rightarrow> string option) \<Rightarrow> string option \<Rightarrow> string option" where
  "get_prep_value clean v =
     (case v of
        None \<Rightarrow> None
      | Some s \<Rightarrow>
          (if s \<noteq> [] \<and> CHR '':'' \<in> set s
           then (case clean s of Some c \<Rightarrow> Some c | None \<Rightarrow> Some s)
           else Some s))"

text \<open>
  \<open>Asset.save\<close> fills in an empty asset tag before writing the row. The generated tag
  comes from a random number and a query, so the generator is a parameter \<open>gen\<close>. The
  QR code is generated only when the row is being created, which never happens here.
  The function returns the object as it is in memory afterwards, and the table with
  the row as it is stored.
\<close>

definition save ::
  "(string \<Rightarrow> string option) \<Rightarrow> (asset \<Rightarrow> string) \<Rightarrow> nat \<Rightarrow> asset \<Rightarrow> asset_table \<Rightarrow>
     asset \<times> asset_table" where
  "save clean gen i a db =
     (let a' = (if asset_tag a = [] then a\<lparr>asset_tag := gen a\<rparr> else a);
          row = a'\<lparr>ip_address := get_prep_value clean (ip_address a')\<rparr>
      in (a', db[i := row]))"

section \<open>Reconciliation: scan\_and\_update\_assets (network\_scanner/scanner.py)\<close>

text \<open>
  The loop state: the table, the results processed so far (the dictionaries are
  annotated in place), and the counters \<open>matched\<close> and \<open>found_missing\<close>.
\<close>

record recon_state =
  table :: asset_table
  done_results :: "scan_result list"
  matched :: nat
  found_missing :: nat

text \<open>
  The body of the \<open>for result in results\<close> loop, at time \<open>now\<close>
  (the value of \<open>timezone.now()\<close>). \<open>MultipleObjectsReturned\<close> is not caught by
  \<open>except Asset.DoesNotExist\<close> and leaves the function: \<open>Inl\<close> carries the state at
  that moment (nothing was written for this result).
\<close>

definition update_asset :: "nat \<Rightarrow> scan_result \<Rightarrow> asset \<Rightarrow> asset \<times> bool" where
  "update_asset now r a =
     (let a1 = a\<lparr>network_last_seen := Some now\<rparr>;
          was_missing = (status a1 = MISSING);
          a2 = (if was_missing
                then a1\<lparr>status := AVAILABLE,
                        location := ''Detected on network: '' @ res_ip_address r\<rparr>
                else a1);
          a3 = a2\<lparr>ip_address := Some (res_ip_address r)\<rparr>
      in (a3, was_missing))"

definition reconcile_result ::
  "(string \<Rightarrow> string option) \<Rightarrow> (asset \<Rightarrow> string) \<Rightarrow> nat \<Rightarrow> scan_result \<Rightarrow> recon_state \<Rightarrow>
     recon_state + recon_state" where
  "reconcile_result clean gen now r st =
     (if truthy (res_mac_address r) then
        (case get_by_mac (table st) (the (res_mac_address r)) of
           DoesNotExist \<Rightarrow> Inr (st\<lparr>done_results := done_results st @ [r]\<rparr>)
         | MultipleObjectsReturned \<Rightarrow> Inl st
         | Found i \<Rightarrow>
             (let (a3, was_missing) = update_asset now r (table st ! i);
                  (a4, db') = save clean gen i a3 (table st);
                  r' = r\<lparr>res_asset_found := True, res_asset_id := Some i,
                         res_asset_tag := Some (asset_tag a4)\<rparr>
              in Inr \<lparr>table = db',
                      done_results = done_results st @ [r'],
                      matched = matched st + 1,
                      found_missing = (if was_missing then found_missing st + 1
                                       else found_missing st)\<rparr>))
      else Inr (st\<lparr>done_results := done_results st @ [r]\<rparr>))"

text \<open>
  The loop. \<open>now k\<close> is the clock reading while the \<open>k\<close>-th remaining result is
  processed.
\<close>

fun reconcile_loop ::
  "(string \<Rightarrow> string option) \<Rightarrow> (asset \<Rightarrow> string) \<Rightarrow> (nat \<Rightarrow> nat) \<Rightarrow> scan_result list \<Rightarrow>
     recon_state \<Rightarrow> recon_state + recon_state" where
  "reconcile_loop clean gen now [] st = Inr st"
| "reconcile_loop clean gen now (r # rs) st =
     (case reconcile_result clean gen (now 0) r st of
        Inl st' \<Rightarrow> Inl st'
      | Inr st' \<Rightarrow> reconcile_loop clean gen (\<lambda>k. now (Suc k)) rs st')"

text \<open>
  The returned dictionary \<open>{'scanned', 'matched', 'missing_found', 'results'}\<close>.
\<close>

record scan_summary =
  scanned :: nat
  sum_matched :: nat
  missing_found :: nat
  sum_results :: "scan_result list"

text \<open>
  The part of \<open>scan_and_update_assets\<close> after \<open>results = scanner.scan()\<close>: the table
  as it is left, and either the returned dictionary or the exception that escapes.
\<close>

datatype recon_error = MultipleObjectsReturnedError | ScanError

definition update_assets ::
  "(string \<Rightarrow> string option) \<Rightarrow> (asset \<Rightarrow> string) \<Rightarrow> (nat \<Rightarrow> nat) \<Rightarrow> scan_result list \<Rightarrow>
     asset_table \<Rightarrow> asset_table \<times> (recon_error + scan_summary)" where
  "update_assets clean gen now rs db =
     (case reconcile_loop clean gen now rs
             \<lparr>table = db, done_results = [], matched = 0, found_missing = 0\<rparr> of
        Inl st \<Rightarrow> (table st, Inl MultipleObjectsReturnedError)
      | Inr st \<Rightarrow>
          (table st,
           Inr \<lparr>scanned = length (done_results st), sum_matched = matched st,
                missing_found = found_missing st, sum_results = done_results st\<rparr>))"

section \<open>Decimal rendering (Python's \<open>str\<close> of an integer)\<close>

definition digit_char :: "nat \<Rightarrow> char" where
  "digit_char d = ''0123456789'' ! d"

fun str_nat :: "nat \<Rightarrow> string" where
  "str_nat n = (if n < 10 then [digit_char n] else str_nat (n div 10) @ [digit_char (n mod 10)])"

declare str_nat.simps [simp del]

definition str_int :: "int \<Rightarrow> string" where
  "str_int i = (if i < 0 then CHR ''-'' # str_nat (nat (- i)) else str_nat (nat i))"

section \<open>Networks of Python's \<open>ipaddress\<close> module\<close>

text \<open>
  What \<open>ip_network(subnet, strict=False)\<close> returns: the address family, the network
  address as an integer (host bits already masked off) and the prefix length.
  \<open>hosts\<close> follows the library: all addresses strictly between the network and the
  broadcast address; for IPv6 the last address is kept; a network of prefix length
  \<open>max_prefixlen - 1\<close> yields both of its addresses and one of prefix length
  \<open>max_prefixlen\<close> its single address.
\<close>

datatype ip_version = IPv4 | IPv6

record ip_net =
  version :: ip_version
  network_address :: nat
  prefixlen :: nat

definition max_prefixlen :: "ip_version \<Rightarrow> nat" where
  "max_prefixlen v = (case v of IPv4 \<Rightarrow> 32 | IPv6 \<Rightarrow> 128)"

definition num_addresses :: "ip_net \<Rightarrow> nat" where
  "num_addresses n = 2 ^ (max_prefixlen (version n) - prefixlen n)"

definition broadcast_address :: "ip_net \<Rightarrow> nat" where
  "broadcast_address n = network_address n + num_addresses n - 1"

definition hosts :: "ip_net \<Rightarrow> nat list" where
  "hosts n =
     (if prefixlen n = max_prefixlen (version n) - 1
        then [network_address n ..< broadcast_address n + 1]
      else if prefixlen n = max_prefixlen (version n)
        then [network_address n]
      else (case version n of
              IPv4 \<Rightarrow> [network_address n + 1 ..< broadcast_address n]
            | IPv6 \<Rightarrow> [network_address n + 1 ..< broadcast_address n + 1]))"

text \<open>
  \<open>str(host)\<close>: dotted quad for IPv4. The compressed IPv6 notation is left to the
  parameter \<open>ipv6_str\<close> of the environment below.
\<close>

definition dotted_quad :: "nat \<Rightarrow> string" where
  "dotted_quad a =
     str_nat (a div 16777216 mod 256) @ ''.'' @ str_nat (a div 65536 mod 256) @ ''.'' @
     str_nat (a div 256 mod 256) @ ''.'' @ str_nat (a mod 256)"

section \<open>The scanner's environment\<close>

text \<open>
  Outcome of \<open>subprocess.run\<close>: the process completed with a return code and its
  standard output, or the call raised (timeout expired, executable not found).
\<close>

datatype proc_outcome = Completed int string | RunRaises

text \<open>
  Everything \<open>NetworkScanner\<close> takes from outside the repository:
  \<open>ip_network\<close> (\<open>None\<close> is the \<open>ValueError\<close> for a string that is neither an IPv4 nor
  an IPv6 network), \<open>platform.system().lower()\<close>, and \<open>subprocess.run\<close> as a function
  of the argument vector. \<open>max_list\<close> is the machine's memory, counted in address objects:
  building a list of more than \<open>max_list\<close> of them raises \<open>MemoryError\<close>.
\<close>

record scan_env =
  ip_network :: "string \<Rightarrow> ip_net option"
  ipv6_str :: "nat \<Rightarrow> string"
  system :: string
  run :: "string list \<Rightarrow> proc_outcome"
  max_list :: nat

definition str_host :: "scan_env \<Rightarrow> ip_version \<Rightarrow> nat \<Rightarrow> string" where
  "str_host env v a = (case v of IPv4 \<Rightarrow> dotted_quad a | IPv6 \<Rightarrow> ipv6_str env a)"

section \<open>Regular expressions for hardware addresses\<close>

text \<open>
  The three patterns of \<open>_get_mac_address\<close> are sequences of character classes, so
  \<open>re.search\<close> is the leftmost position at which every class accepts its character.
\<close>

definition lower_char :: "char \<Rightarrow> char" where
  "lower_char c =
     (case map_of (zip ''ABCDEFGHIJKLMNOPQRSTUVWXYZ'' ''abcdefghijklmnopqrstuvwxyz'') c of
        Some l \<Rightarrow> l
      | None \<Rightarrow> c)"

definition lower :: "string \<Rightarrow> string" where
  "lower s = map lower_char s"

definition hex_any :: "char \<Rightarrow> bool" where
  "hex_any c = (c \<in> set ''0123456789ABCDEFabcdef'')"

definition hex_lower :: "char \<Rightarrow> bool" where
  "hex_lower c = (c \<in> set ''0123456789abcdef'')"

definition mac_pattern :: "(char \<Rightarrow> bool) \<Rightarrow> char \<Rightarrow> (char \<Rightarrow> bool) list" where
  "mac_pattern hx sep =
     [hx, hx, (=) sep, hx, hx, (=) sep, hx, hx, (=) sep,
      hx, hx, (=) sep, hx, hx, (=) sep, hx, hx]"

fun match_here :: "(char \<Rightarrow> bool) list \<Rightarrow> string \<Rightarrow> bool" where
  "match_here [] s = True"
| "match_here (p # ps) [] = False"
| "match_here (p # ps) (c # cs) = (p c \<and> match_here ps cs)"

fun re_search :: "(char \<Rightarrow> bool) list \<Rightarrow> string \<Rightarrow> string option" where
  "re_search pat [] = (if match_here pat [] then Some [] else None)"
| "re_search pat (c # cs) =
     (if match_here pat (c # cs) then Some (take (length pat) (c # cs))
      else re_search pat cs)"

definition replace_char :: "char \<Rightarrow> char \<Rightarrow> string \<Rightarrow> string" where
  "replace_char old new s = map (\<lambda>c. if c = old then new else c) s"

section \<open>NetworkScanner (network\_scanner/scanner.py)\<close>

text \<open>
  Each function returns its value together with the argument vectors of the external
  processes it has started, in order: the probes performed. \<open>print\<close> is taken to
  succeed.
\<close>

definition ping_argv :: "scan_env \<Rightarrow> int \<Rightarrow> string \<Rightarrow> string list" where
  "ping_argv env timeout ip =
     (let windows = (system env = ''windows'');
          param = (if windows then ''-n'' else ''-c'');
          timeout_param = (if windows then ''-w'' else ''-W'');
          timeout_val = (if windows then str_int (timeout * 1000) else str_int timeout);
          count = ''1''
      in [''ping'', param, count, timeout_param, timeout_val, ip])"

text \<open>
  \<open>_ping_host\<close>: the bare \<open>except\<close> turns every exception into \<open>False\<close>.
\<close>

definition ping_host :: "scan_env \<Rightarrow> int \<Rightarrow> string \<Rightarrow> bool \<times> string list list" where
  "ping_host env timeout ip =
     (let argv = ping_argv env timeout ip
      in (case run env argv of
            Completed returncode out \<Rightarrow> (returncode = 0, [argv])
          | RunRaises \<Rightarrow> (False, [argv])))"

text \<open>
  \<open>_get_mac_address\<close>: an exception of any of the calls is caught and the function
  returns \<open>None\<close>; the fallback to \<open>arp -n\<close> runs only when \<open>ip neigh\<close> completed
  without a match.
\<close>

definition get_mac_address :: "scan_env \<Rightarrow> string \<Rightarrow> string option \<times> string list list" where
  "get_mac_address env ip =
     (if system env = ''windows'' then
        (let argv = [''arp'', ''-a'', ip]
         in (case run env argv of
               RunRaises \<Rightarrow> (None, [argv])
             | Completed rc output \<Rightarrow>
                 (case re_search (mac_pattern hex_any CHR ''-'') output of
                    Some m \<Rightarrow> (Some (upper (replace_char CHR ''-'' CHR '':'' m)), [argv])
                  | None \<Rightarrow> (None, [argv]))))
      else
        (let argv1 = [''ip'', ''neigh'', ''show'', ip]
         in (case run env argv1 of
               RunRaises \<Rightarrow> (None, [argv1])
             | Completed rc1 output1 \<Rightarrow>
                 (case re_search (map (=) ''lladdr '' @ mac_pattern hex_lower CHR '':'')
                         (lower output1) of
                    Some m \<Rightarrow> (Some (upper (drop 7 m)), [argv1])
                  | None \<Rightarrow>
                      (let argv2 = [''arp'', ''-n'', ip]
                       in (case run env argv2 of
                             RunRaises \<Rightarrow> (None, [argv1, argv2])
                           | Completed rc2 output2 \<Rightarrow>
                               (case re_search (mac_pattern hex_any CHR '':'') output2 of
                                  Some m \<Rightarrow> (Some (upper m), [argv1, argv2])
                                | None \<Rightarrow> (None, [argv1, argv2]))))))))"

text \<open>
  \<open>_scan_host\<close>: a result dictionary for a live host, \<open>None\<close> otherwise.
\<close>

definition scan_host :: "scan_env \<Rightarrow> int \<Rightarrow> string \<Rightarrow> scan_result option \<times> string list list" where
  "scan_host env timeout ip =
     (let (is_alive, log1) = ping_host env timeout ip
      in if is_alive then
           (let (mac, log2) = get_mac_address env ip
            in (Some \<lparr>res_ip_address = ip, res_mac_address = mac, res_is_alive = True,
                      res_asset_found = False, res_asset_id = None, res_asset_tag = None\<rparr>,
                log1 @ log2))
         else (None, log1))"

text \<open>
  The \<open>for host in hosts\<close> loop of \<open>scan\<close>.
\<close>

fun scan_hosts :: "scan_env \<Rightarrow> int \<Rightarrow> string list \<Rightarrow> scan_result list \<times> string list list" where
  "scan_hosts env timeout [] = ([], [])"
| "scan_hosts env timeout (ip # ips) =
     (let (result, log1) = scan_host env timeout ip;
          (rest, log2) = scan_hosts env timeout ips
      in ((case result of Some r \<Rightarrow> r # rest | None \<Rightarrow> rest), log1 @ log2))"

text \<open>
  The exceptions that can reach the handler of \<open>scan\<close>, and what a call of \<open>scan\<close>
  can do: return a list or raise.
\<close>

datatype scan_error = ValueError | MemoryError

text \<open>
  \<open>list(network.hosts())\<close>: the list of all host addresses is built in full, before it
  is cut to 254 entries.
\<close>

definition list_hosts :: "scan_env \<Rightarrow> ip_net \<Rightarrow> scan_error + nat list" where
  "list_hosts env network =
     (if max_list env < length (hosts network) then Inl MemoryError else Inr (hosts network))"

text \<open>
  The body of the \<open>try\<close> block of \<open>scan\<close>: \<open>ip_network\<close> raises \<open>ValueError\<close> for a
  malformed subnet and the listing of the hosts raises \<open>MemoryError\<close> for a block that is
  too wide, both before any host is probed.
\<close>

definition scan_try :: "scan_env \<Rightarrow> int \<Rightarrow> string \<Rightarrow> (scan_error + scan_result list) \<times> string list list" where
  "scan_try env timeout subnet =
     (case ip_network env subnet of
        None \<Rightarrow> (Inl ValueError, [])
      | Some network \<Rightarrow>
          (case list_hosts env network of
             Inl e \<Rightarrow> (Inl e, [])
           | Inr all_hosts \<Rightarrow>
               (let hosts254 = take 254 all_hosts;
                    (results, log) =
                      scan_hosts env timeout (map (str_host env (version network)) hosts254)
                in (Inr results, log))))"

text \<open>
  \<open>scan\<close>: \<open>except Exception\<close> prints the error and returns the empty list.
\<close>

definition scan :: "scan_env \<Rightarrow> int \<Rightarrow> string \<Rightarrow> (scan_error + scan_result list) \<times> string list list" where
  "scan env timeout subnet =
     (case scan_try env timeout subnet of
        (Inl e, log) \<Rightarrow> (Inr [], log)
      | (Inr results, log) \<Rightarrow> (Inr results, log))"

text \<open>
  \<open>scan_and_update_assets\<close>: a scan with the default timeout of one second, then the
  reconciliation of its results.
\<close>

definition scan_and_update_assets ::
  "scan_env \<Rightarrow> (string \<Rightarrow> string option) \<Rightarrow> (asset \<Rightarrow> string) \<Rightarrow> (nat \<Rightarrow> nat) \<Rightarrow> string \<Rightarrow>
     asset_table \<Rightarrow> asset_table \<times> (recon_error + scan_summary)" where
  "scan_and_update_assets env clean gen now subnet db =
     (case fst (scan env 1 subnet) of
        Inl e \<Rightarrow> (db, Inl ScanError)
      | Inr rs \<Rightarrow> update_assets clean gen now rs db)"

section \<open>The scan\_network management command (management/commands/scan\_network.py)\<close>

text \<open>
  The state of \<open>Command.handle\<close>: the table, the lines written to standard output
  (without their colour styling) and the three counters.
\<close>

record cmd_state =
  cmd_table :: asset_table
  stdout :: "string list"
  found_count :: nat
  matched_count :: nat
  cmd_missing_found :: nat

text \<open>
  The body of the loop over the results.
\<close>

definition handle_result ::
  "(string \<Rightarrow> string option) \<Rightarrow> (asset \<Rightarrow> string) \<Rightarrow> nat \<Rightarrow> scan_result \<Rightarrow> cmd_state \<Rightarrow>
     cmd_state + cmd_state" where
  "handle_result clean gen now r st =
     (if \<not> truthy (res_mac_address r) then Inr st
      else
        (case get_by_mac (cmd_table st) (the (res_mac_address r)) of
           Found i \<Rightarrow>
             (let a = cmd_table st ! i;
                  a1 = a\<lparr>network_last_seen := Some now\<rparr>;
                  a2 = a1\<lparr>ip_address := Some (res_ip_address r)\<rparr>;
                  was_missing = (status a2 = MISSING);
                  a3 = (if was_missing
                        then a2\<lparr>status := AVAILABLE,
                                location := ''Auto-detected: '' @ res_ip_address r\<rparr>
                        else a2);
                  line = (if was_missing
                          then ''[FOUND MISSING] '' @ asset_tag a3 @ '' at '' @ res_ip_address r
                          else ''[DETECTED] '' @ asset_tag a3 @ '' at '' @ res_ip_address r);
                  (a4, db') = save clean gen i a3 (cmd_table st)
              in Inr (st\<lparr>cmd_table := db',
                         stdout := stdout st @ [line],
                         matched_count := matched_count st + 1,
                         cmd_missing_found := (if was_missing then cmd_missing_found st + 1
                                               else cmd_missing_found st)\<rparr>))
         | DoesNotExist \<Rightarrow>
             Inr (st\<lparr>stdout := stdout st @
                          [''[UNKNOWN] Device at '' @ res_ip_address r @ '' - '' @
                           the (res_mac_address r)],
                      found_count := found_count st + 1\<rparr>)
         | MultipleObjectsReturned \<Rightarrow> Inl st))"

fun handle_loop ::
  "(string \<Rightarrow> string option) \<Rightarrow> (asset \<Rightarrow> string) \<Rightarrow> (nat \<Rightarrow> nat) \<Rightarrow> scan_result list \<Rightarrow>
     cmd_state \<Rightarrow> cmd_state + cmd_state" where
  "handle_loop clean gen now [] st = Inr st"
| "handle_loop clean gen now (r # rs) st =
     (case handle_result clean gen (now 0) r st of
        Inl st' \<Rightarrow> Inl st'
      | Inr st' \<Rightarrow> handle_loop clean gen (\<lambda>k. now (Suc k)) rs st')"

text \<open>
  The last line the command writes.
\<close>

definition summary_line :: "nat \<Rightarrow> nat \<Rightarrow> nat \<Rightarrow> string" where
  "summary_line n_results n_matched n_missing =
     ''Scan complete: '' @ str_nat n_results @ '' hosts up, '' @ str_nat n_matched @
     '' assets matched, '' @ str_nat n_missing @ '' missing found''"

text \<open>
  The part of \<open>handle\<close> after \<open>results = scanner.scan()\<close>; the header lines are in
  \<open>handle\<close> below. An escaping \<open>MultipleObjectsReturned\<close> ends the command before the
  closing lines are written.
\<close>

definition handle_results ::
  "(string \<Rightarrow> string option) \<Rightarrow> (asset \<Rightarrow> string) \<Rightarrow> (nat \<Rightarrow> nat) \<Rightarrow> scan_result list \<Rightarrow>
     cmd_state \<Rightarrow> cmd_state + cmd_state" where
  "handle_results clean gen now rs st0 =
     (case handle_loop clean gen now rs st0 of
        Inl st \<Rightarrow> Inl st
      | Inr st \<Rightarrow>
          Inr (st\<lparr>stdout := stdout st @
                       [replicate 50 CHR ''-'',
                        summary_line (length rs) (matched_count st) (cmd_missing_found st)]\<rparr>))"

definition handle ::
  "scan_env \<Rightarrow> (string \<Rightarrow> string option) \<Rightarrow> (asset \<Rightarrow> string) \<Rightarrow> (nat \<Rightarrow> nat) \<Rightarrow> string \<Rightarrow> int \<Rightarrow>
     asset_table \<Rightarrow> cmd_state + cmd_state" where
  "handle env clean gen now subnet timeout db =
     (let header = [''Initiating network scan on '' @ subnet @ ''...'',
                    ''Timeout: '' @ str_int timeout @ ''s per host'',
                    replicate 50 CHR ''-''];
          st0 = \<lparr>cmd_table = db, stdout = header, found_count = 0, matched_count = 0,
                 cmd_missing_found = 0\<rparr>
      in (case fst (scan env timeout subnet) of
            Inl e \<Rightarrow> Inl st0
          | Inr rs \<Rightarrow> handle_results clean gen now rs st0))"

section \<open>The overdue notifier (asset\_management/tasks.py)\<close>

text \<open>
  A \<open>User\<close> row: \<open>full_name\<close> is the value of \<open>get_full_name()\<close>, \<open>email\<close> is the empty
  string when no address is registered.
\<close>

record user =
  username :: string
  full_name :: string
  email :: string

text \<open>
  An \<open>AssetAssignment\<close> row with its related rows loaded (\<open>select_related\<close>). The three
  foreign keys are declared without \<open>null=True\<close>, so the related rows are always
  there, and a model instance is truthy: the tests \<open>if assignment.assigned_by\<close> and
  \<open>if assignment.assigned_to\<close> always succeed.
\<close>

record assignment =
  assignment_id :: nat
  asset :: asset
  assigned_to :: user
  assigned_by :: user
  date_due :: "nat option"
  date_returned :: "nat option"

datatype level = INFO | WARNING | ALERT

record notification =
  notif_user :: user
  notif_message :: string
  notif_link :: string
  notif_level :: level

record audit_entry =
  log_user :: "user option"
  log_action :: string
  log_model_name :: string
  log_object_id :: string
  log_description :: string

text \<open>
  What the task takes from outside the repository. \<open>send_mail\<close> (with
  \<open>fail_silently=False\<close>) succeeds or raises an exception, given here by its \<open>str\<close>;
  its first argument, the assignment's id, identifies the call. \<open>retry\<close> is Celery's
  \<open>self.retry(exc=exc)\<close>: the statement \<open>raise self.retry(exc=exc)\<close> always raises,
  either \<open>MaxRetriesExceededError\<close> or some other exception (\<open>Retry\<close>, or \<open>exc\<close>
  itself), given by its \<open>str\<close>.
\<close>

datatype mail_outcome = Sent | SendRaises string

datatype retry_outcome = MaxRetriesExceededError | RetryRaises string

record mail_env =
  EMAIL_HOST :: string
  DEFAULT_FROM_EMAIL :: string
  send_mail :: "nat \<Rightarrow> string \<Rightarrow> string \<Rightarrow> string \<Rightarrow> string list \<Rightarrow> mail_outcome"
  retry :: "nat \<Rightarrow> string \<Rightarrow> retry_outcome"
  str_datetime :: "nat \<Rightarrow> string"

text \<open>
  The rows the task has inserted so far, and its two counters.
\<close>

record job_state =
  notifications :: "notification list"
  audit_log :: "audit_entry list"
  notifications_created :: nat
  email_notifications :: nat

definition overdue_subject :: "assignment \<Rightarrow> string" where
  "overdue_subject a = ''Overdue Asset Alert: '' @ asset_tag (asset a)"

definition overdue_message :: "mail_env \<Rightarrow> assignment \<Rightarrow> string" where
  "overdue_message env a =
     ''Asset '' @ name (asset a) @ '' ('' @ asset_tag (asset a) @ '') is overdue.'' @ [CHR 0x0A] @
     ''Assigned to: '' @
       (if full_name (assigned_to a) \<noteq> [] then full_name (assigned_to a)
        else username (assigned_to a)) @ [CHR 0x0A] @
     ''Due date: '' @
       (case date_due a of None \<Rightarrow> ''None'' | Some t \<Rightarrow> str_datetime env t) @ [CHR 0x0A] @
     ''Please follow up.''"

definition assignment_link :: "assignment \<Rightarrow> string" where
  "assignment_link a = ''/assignments/'' @ str_nat (assignment_id a) @ ''/''"

definition audit :: "assignment \<Rightarrow> string \<Rightarrow> audit_entry" where
  "audit a description =
     \<lparr>log_user = None, log_action = ''EXPORT'', log_model_name = ''AssetAssignment'',
      log_object_id = str_nat (assignment_id a), log_description = description\<rparr>"

definition failed_description :: "string \<Rightarrow> string" where
  "failed_description exc = ''Failed to send overdue email after retries: '' @ exc"

definition created_description :: "nat \<Rightarrow> assignment \<Rightarrow> string" where
  "created_description n a =
     ''Created '' @ str_nat n @ '' notifications for overdue assignment '' @
     str_nat (assignment_id a)"

definition unexpected_description :: "string \<Rightarrow> string" where
  "unexpected_description e = ''Unexpected error in overdue task: '' @ e"

text \<open>
  The two \<open>Notification.objects.create\<close> blocks, with the recipients collected.
\<close>

definition notify :: "mail_env \<Rightarrow> assignment \<Rightarrow> job_state \<Rightarrow> job_state \<times> string list" where
  "notify env a st =
     (let message = overdue_message env a;
          st1 = st\<lparr>notifications := notifications st @
                       [\<lparr>notif_user = assigned_by a, notif_message = message,
                         notif_link = assignment_link a, notif_level = ALERT\<rparr>],
                    notifications_created := notifications_created st + 1\<rparr>;
          recipients1 = (if email (assigned_by a) \<noteq> [] then [email (assigned_by a)] else []);
          st2 = st1\<lparr>notifications := notifications st1 @
                        [\<lparr>notif_user = assigned_to a, notif_message = message,
                          notif_link = assignment_link a, notif_level = WARNING\<rparr>],
                     notifications_created := notifications_created st1 + 1\<rparr>;
          recipients2 = recipients1 @
                        (if email (assigned_to a) \<noteq> [] then [email (assigned_to a)] else [])
      in (st2, recipients2))"

definition log_created :: "assignment \<Rightarrow> job_state \<Rightarrow> job_state" where
  "log_created a st =
     st\<lparr>audit_log := audit_log st @
                      [audit a (created_description (notifications_created st) a)]\<rparr>"

text \<open>
  The body of the outer \<open>try\<close> for one assignment: the state it leaves, and the
  exception that escapes it, if any.
\<close>

definition assignment_body :: "mail_env \<Rightarrow> assignment \<Rightarrow> job_state \<Rightarrow> job_state \<times> string option" where
  "assignment_body env a st =
     (let (st2, recipients) = notify env a st
      in if recipients \<noteq> [] \<and> EMAIL_HOST env \<noteq> [] then
           (case send_mail env (assignment_id a) (overdue_subject a) (overdue_message env a)
                   (DEFAULT_FROM_EMAIL env) recipients of
              Sent \<Rightarrow>
                (log_created a (st2\<lparr>email_notifications := email_notifications st2 + 1\<rparr>), None)
            | SendRaises exc \<Rightarrow>
                (case retry env (assignment_id a) exc of
                   MaxRetriesExceededError \<Rightarrow>
                     (log_created a
                        (st2\<lparr>audit_log := audit_log st2 @ [audit a (failed_description exc)]\<rparr>),
                      None)
                 | RetryRaises e \<Rightarrow> (st2, Some e)))
         else (log_created a st2, None))"

text \<open>
  One iteration of \<open>for assignment in overdue\<close>: \<open>except Exception\<close> records the
  escaping exception in the audit log.
\<close>

definition process_assignment :: "mail_env \<Rightarrow> assignment \<Rightarrow> job_state \<Rightarrow> job_state" where
  "process_assignment env a st =
     (case assignment_body env a st of
        (st', None) \<Rightarrow> st'
      | (st', Some e) \<Rightarrow>
          st'\<lparr>audit_log := audit_log st' @ [audit a (unexpected_description e)]\<rparr>)"

fun process_all :: "mail_env \<Rightarrow> assignment list \<Rightarrow> job_state \<Rightarrow> job_state" where
  "process_all env [] st = st"
| "process_all env (a # as) st = process_all env as (process_assignment env a st)"

text \<open>
  The query: \<open>date_due < now\<close> (false for a null due date) and no return date.
\<close>

definition is_overdue :: "nat \<Rightarrow> assignment \<Rightarrow> bool" where
  "is_overdue now a =
     ((case date_due a of None \<Rightarrow> False | Some d \<Rightarrow> d < now) \<and> date_returned a = None)"

definition overdue :: "nat \<Rightarrow> assignment list \<Rightarrow> assignment list" where
  "overdue now assignments = filter (is_overdue now) assignments"

record job_result =
  overdue_count :: nat
  res_notifications_created :: nat
  res_email_notifications :: nat

text \<open>
  \<open>check_overdue_assignments\<close>, run at time \<open>now\<close> on the assignment table, with the
  notification and audit tables as they were: the tables as they are left, and the
  returned dictionary.
\<close>

definition start_state :: "notification list \<Rightarrow> audit_entry list \<Rightarrow> job_state" where
  "start_state notifs logs =
     \<lparr>notifications = notifs, audit_log = logs, notifications_created = 0,
      email_notifications = 0\<rparr>"

definition check_overdue_assignments ::
  "mail_env \<Rightarrow> nat \<Rightarrow> assignment list \<Rightarrow> notification list \<Rightarrow> audit_entry list \<Rightarrow> job_state \<times> job_result" where
  "check_overdue_assignments env now assignments notifs logs =
     (let ov = overdue now assignments;
          st = process_all env ov (start_state notifs logs)
      in (st, \<lparr>overdue_count = length ov,
               res_notifications_created = notifications_created st,
               res_email_notifications = email_notifications st\<rparr>))"

section \<open>Auxiliary notions and example data\<close>


text \<open>
  An environment for concrete runs: a Linux host on which \<open>10.0.0.5\<close> answers and has
  a neighbour entry, \<open>10.0.0.6\<close> does not answer, and every other process fails to
  start; \<open>ip_network\<close> is given for the four subnets used and rejects everything else;
  a list holds a million addresses at most.
\<close>

definition example_env :: scan_env where
  "example_env =
     \<lparr>ip_network = (\<lambda>s.
        if s = ''10.0.0.4/30''
          then Some \<lparr>version = IPv4, network_address = 167772164, prefixlen = 30\<rparr>
        else if s = ''10.0.0.0/31''
          then Some \<lparr>version = IPv4, network_address = 167772160, prefixlen = 31\<rparr>
        else if s = ''0.0.0.0/0''
          then Some \<lparr>version = IPv4, network_address = 0, prefixlen = 0\<rparr>
        else if s = ''fe80::/126''
          then Some \<lparr>version = IPv6,
                     network_address = 338288524927261089654018896841347694592,
                     prefixlen = 126\<rparr>
        else None),
      ipv6_str = (\<lambda>a. []),
      system = ''linux'',
      run = (\<lambda>argv.
        if argv = [''ping'', ''-c'', ''1'', ''-W'', ''1'', ''10.0.0.5''] then Completed 0 []
        else if argv = [''ip'', ''neigh'', ''show'', ''10.0.0.5'']
          then Completed 0 ''10.0.0.5 dev eth0 lladdr aa:bb:cc:00:11:22 REACHABLE''
        else if argv = [''ping'', ''-c'', ''1'', ''-W'', ''1'', ''10.0.0.6''] then Completed 1 []
        else RunRaises),
      max_list = 1000000\<rparr>"

text \<open>
  Notions for stating the notifier's properties: the recipients collected for an
  assignment, the outcome of its \<open>send_mail\<close> call, whether a delivery is attempted
  and whether it succeeds, and whether an audit entry describes exhausted retries.
\<close>

definition recipients_of :: "assignment \<Rightarrow> string list" where
  "recipients_of a =
     (if email (assigned_by a) \<noteq> [] then [email (assigned_by a)] else []) @
     (if email (assigned_to a) \<noteq> [] then [email (assigned_to a)] else [])"

definition delivery :: "mail_env \<Rightarrow> assignment \<Rightarrow> mail_outcome" where
  "delivery env a =
     send_mail env (assignment_id a) (overdue_subject a) (overdue_message env a)
       (DEFAULT_FROM_EMAIL env) (recipients_of a)"

definition attempted :: "mail_env \<Rightarrow> assignment \<Rightarrow> bool" where
  "attempted env a = (recipients_of a \<noteq> [] \<and> EMAIL_HOST env \<noteq> [])"

definition delivered :: "mail_env \<Rightarrow> assignment \<Rightarrow> bool" where
  "delivered env a = (attempted env a \<and> delivery env a = Sent)"

definition describes_exhausted_retries :: "audit_entry \<Rightarrow> bool" where
  "describes_exhausted_retries e =
     (take 44 (log_description e) = ''Failed to send overdue email after retries: '')"

text \<open>
  Example data: two users, one of them without an e-mail address, an asset, three
  assignments (the first overdue at time 100, the second returned, the third without
  a due date), and a mail environment whose transport always fails and whose retries
  are exhausted.
\<close>

definition alice :: user where
  "alice = \<lparr>username = ''alice'', full_name = ''Alice A'', email = ''alice@utv.gh''\<rparr>"

definition bob :: user where
  "bob = \<lparr>username = ''bob'', full_name = [], email = []\<rparr>"

definition camera :: asset where
  "camera =
     \<lparr>asset_tag = ''UTV-CAM-0001'', name = ''Camera'', mac_address = Some ''aa:bb:cc:00:11:22'',
      ip_address = None, status = ASSIGNED, location = ''Studio'', network_last_seen = None\<rparr>"

definition example_overdue :: assignment where
  "example_overdue =
     \<lparr>assignment_id = 7, asset = camera, assigned_to = bob, assigned_by = alice,
      date_due = Some 50, date_returned = None\<rparr>"

definition example_assignments :: "assignment list" where
  "example_assignments =
     [example_overdue,
      \<lparr>assignment_id = 8, asset = camera, assigned_to = alice, assigned_by = alice,
       date_due = Some 60, date_returned = Some 70\<rparr>,
      \<lparr>assignment_id = 9, asset = camera, assigned_to = alice, assigned_by = bob,
       date_due = None, date_returned = None\<rparr>]"

definition failing_mail_env :: mail_env where
  "failing_mail_env =
     \<lparr>EMAIL_HOST = ''smtp.utv.gh'', DEFAULT_FROM_EMAIL = ''amats@utv.gh'',
      send_mail = (\<lambda>i subject message sender recipients. SendRaises ''connection refused''),
      retry = (\<lambda>i exc. MaxRetriesExceededError),
      str_datetime = str_nat\<rparr>"

text \<open>
  The options of the task decorator in tasks.py:
  \<open>@shared_task(bind=True, max_retries=3, default_retry_delay=60)\<close>.
\<close>

definition max_retries :: nat where
  "max_retries = 3"

definition default_retry_delay :: nat where
  "default_retry_delay = 60"

text \<open>
  Celery's \<open>Task.retry(exc=exc)\<close>, as the library documents it, for a request that has
  been retried \<open>retries\<close> times already. While the bound is not exceeded the task is
  sent again and \<open>Retry\<close> is raised. Once it is exceeded the exception \<open>exc\<close> itself is
  raised again; \<open>MaxRetriesExceededError\<close> is raised only by a call without \<open>exc\<close>, which
  the task never makes. The text of \<open>Retry\<close> is given with \<open>str(exc)\<close> in the place of
  \<open>repr(exc)\<close>.
\<close>

definition celery_retry :: "nat \<Rightarrow> string \<Rightarrow> retry_outcome" where
  "celery_retry retries exc =
     (if max_retries < retries + 1 then RetryRaises exc
      else RetryRaises (''Retry in '' @ str_nat default_retry_delay @ ''s: '' @ exc))"

text \<open>
  A run of the task under Celery, after the three retries: the transport refuses the
  mail of assignment 7 and delivers every other mail. Two assignments are overdue.
\<close>

definition celery_mail_env :: mail_env where
  "celery_mail_env =
     \<lparr>EMAIL_HOST = ''smtp.utv.gh'', DEFAULT_FROM_EMAIL = ''amats@utv.gh'',
      send_mail = (\<lambda>i subject message sender recipients.
        if i = 7 then SendRaises ''connection refused'' else Sent),
      retry = (\<lambda>i exc. celery_retry 3 exc),
      str_datetime = str_nat\<rparr>"

definition second_overdue :: assignment where
  "second_overdue =
     \<lparr>assignment_id = 10, asset = camera, assigned_to = alice, assigned_by = alice,
      date_due = Some 80, date_returned = None\<rparr>"

definition two_overdue :: "assignment list" where
  "two_overdue = [example_overdue, second_overdue]"

text \<open>
  Notions for stating the reconciliation's properties. A result hits a row when it
  carries a hardware address and the row's address equals it up to case.
\<close>

definition hit :: "scan_result \<Rightarrow> asset \<Rightarrow> bool" where
  "hit r a = (truthy (res_mac_address r) \<and> iexact (mac_address a) (the (res_mac_address r)))"

text \<open>
  What the two reconciliation loops (\<open>scan_and_update_assets\<close> and the management
  command) have in common, used in the proofs only: the effect of one result on the
  table and on the counter of recovered assets. \<open>marker\<close> is the text put in front of
  the address in the new location.
\<close>

definition refresh :: "string \<Rightarrow> nat \<Rightarrow> scan_result \<Rightarrow> asset \<Rightarrow> asset" where
  "refresh marker now r a =
     a\<lparr>network_last_seen := Some now,
       ip_address := Some (res_ip_address r),
       status := (if status a = MISSING then AVAILABLE else status a),
       location := (if status a = MISSING then marker @ res_ip_address r else location a)\<rparr>"

definition core_step ::
  "string \<Rightarrow> (string \<Rightarrow> string option) \<Rightarrow> (asset \<Rightarrow> string) \<Rightarrow> nat \<Rightarrow> scan_result \<Rightarrow>
     asset_table \<times> nat \<Rightarrow> (asset_table \<times> nat) + (asset_table \<times> nat)" where
  "core_step marker clean gen now r s =
     (if truthy (res_mac_address r) then
        (case get_by_mac (fst s) (the (res_mac_address r)) of
           DoesNotExist \<Rightarrow> Inr s
         | MultipleObjectsReturned \<Rightarrow> Inl s
         | Found i \<Rightarrow>
             Inr (snd (save clean gen i (refresh marker now r (fst s ! i)) (fst s)),
                  (if status (fst s ! i) = MISSING then snd s + 1 else snd s)))
      else Inr s)"

fun core_loop ::
  "string \<Rightarrow> (string \<Rightarrow> string option) \<Rightarrow> (asset \<Rightarrow> string) \<Rightarrow> (nat \<Rightarrow> nat) \<Rightarrow> scan_result list \<Rightarrow>
     asset_table \<times> nat \<Rightarrow> (asset_table \<times> nat) + (asset_table \<times> nat)" where
  "core_loop marker clean gen now [] s = Inr s"
| "core_loop marker clean gen now (r # rs) s =
     (case core_step marker clean gen (now 0) r s of
        Inl s' \<Rightarrow> Inl s'
      | Inr s' \<Rightarrow> core_loop marker clean gen (\<lambda>k. now (Suc k)) rs s')"

text \<open>
  Example data for the reconciliation: a table with a missing camera and a mixer under
  maintenance; a result for each of them (the camera's is the one the scan of
  \<open>example_env\<close> returns), a result with an address that no asset has, and a result
  without a hardware address; a tag generator and a clock.
\<close>

definition lost_camera :: asset where
  "lost_camera = camera\<lparr>status := MISSING\<rparr>"

definition mixer :: asset where
  "mixer =
     \<lparr>asset_tag = ''UTV-MIX-0002'', name = ''Mixer'', mac_address = Some ''00:11:22:33:44:55'',
      ip_address = None, status = MAINTENANCE, location = ''Workshop'',
      network_last_seen = None\<rparr>"

definition example_table :: asset_table where
  "example_table = [lost_camera, mixer]"

definition host :: "string \<Rightarrow> string option \<Rightarrow> scan_result" where
  "host ip mac =
     \<lparr>res_ip_address = ip, res_mac_address = mac, res_is_alive = True,
      res_asset_found = False, res_asset_id = None, res_asset_tag = None\<rparr>"

definition seen_camera :: scan_result where
  "seen_camera = host ''10.0.0.5'' (Some ''AA:BB:CC:00:11:22'')"

definition seen_mixer :: scan_result where
  "seen_mixer = host ''10.0.0.6'' (Some ''00:11:22:33:44:55'')"

definition unknown_host :: scan_result where
  "unknown_host = host ''10.0.0.7'' (Some ''DE:AD:BE:EF:00:01'')"

definition silent_host :: scan_result where
  "silent_host = host ''10.0.0.8'' None"

definition example_clean :: "string \<Rightarrow> string option" where
  "example_clean s = Some s"

definition example_gen :: "asset \<Rightarrow> string" where
  "example_gen a = ''UTV-OTH-0000''"

definition example_clock :: "nat \<Rightarrow> nat" where
  "example_clock k = 1000 + k"

definition example_cmd_state :: cmd_state where
  "example_cmd_state =
     \<lparr>cmd_table = example_table, stdout = [], found_count = 0, matched_count = 0,
      cmd_missing_found = 0\<rparr>"

text \<open>
  A result is ambiguous for a table when its hardware address equals, up to case, that
  of more than one row: \<open>Asset.objects.get\<close> then raises \<open>MultipleObjectsReturned\<close>, which
  neither loop catches.
\<close>

definition ambiguous :: "asset_table \<Rightarrow> scan_result \<Rightarrow> bool" where
  "ambiguous db r =
     (truthy (res_mac_address r) \<and>
      get_by_mac db (the (res_mac_address r)) = MultipleObjectsReturned)"

text \<open>
  Two tables in which a hardware address occurs twice: the mixer's in the first, the
  camera's in the second.
\<close>

definition twin_mixer_table :: asset_table where
  "twin_mixer_table = [lost_camera, mixer, mixer\<lparr>asset_tag := ''UTV-MIX-0003''\<rparr>]"

definition twin_camera_table :: asset_table where
  "twin_camera_table = [lost_camera, mixer, camera\<lparr>asset_tag := ''UTV-CAM-0004''\<rparr>]"

section \<open>Properties: the subnet scanner\<close>






lemma scan_too_wide:
  "ip_network env subnet = Some n \<Longrightarrow> max_list env < length (hosts n) \<Longrightarrow>
   scan env timeout subnet = (Inr [], [])"
  by (simp add: scan_def scan_try_def list_hosts_def)




text \<open>
  C2. The claim is that a malformed subnet makes \<open>scan\<close> fail with an error the caller
  sees. For the string \<open>not-a-subnet\<close>, which \<open>ip_network\<close> rejects, the call returns the
  empty list: the \<open>ValueError\<close> of \<open>ip_network\<close> (the \<open>InvalidSubnet\<close> of the claim) does
  not leave \<open>scan\<close>.
\<close>

theorem malformed_subnet_counterexample:
  "ip_network example_env ''not-a-subnet'' = None \<and>
   fst (scan example_env 1 ''not-a-subnet'') = Inr [] \<and>
   fst (scan example_env 1 ''not-a-subnet'') \<noteq> Inl ValueError"
  by (simp add: example_env_def scan_def scan_try_def)

text \<open>
  C2, as the code has it. For every subnet string that \<open>ip_network\<close> rejects, \<open>scan\<close>
  returns the empty list, and it has started no process: no host was probed.
\<close>

theorem malformed_subnet_empty_result:
  "ip_network env subnet = None \<Longrightarrow> scan env timeout subnet = (Inr [], [])"
  by (simp add: scan_def scan_try_def)

theorem malformed_subnet_empty_result_witness:
  "ip_network example_env ''not-a-subnet'' = None \<and>
   scan example_env 1 ''not-a-subnet'' = (Inr [], [])"
proof -
  have h: "ip_network example_env ''not-a-subnet'' = None"
    by (simp add: example_env_def)
  show ?thesis using h malformed_subnet_empty_result [OF h, of 1] by simp
qed




section \<open>Properties: the overdue notifier\<close>

lemma snd_notify: "snd (notify env a st) = recipients_of a"
  by (simp add: notify_def recipients_of_def Let_def)

lemma fst_notify:
  "fst (notify env a st) =
     st\<lparr>notifications := notifications st @
          [\<lparr>notif_user = assigned_by a, notif_message = overdue_message env a,
            notif_link = assignment_link a, notif_level = ALERT\<rparr>,
           \<lparr>notif_user = assigned_to a, notif_message = overdue_message env a,
            notif_link = assignment_link a, notif_level = WARNING\<rparr>],
        notifications_created := notifications_created st + 2\<rparr>"
  by (simp add: notify_def Let_def)

lemma process_assignment_notifications:
  "notifications (process_assignment env a st) =
     notifications st @
       [\<lparr>notif_user = assigned_by a, notif_message = overdue_message env a,
         notif_link = assignment_link a, notif_level = ALERT\<rparr>,
        \<lparr>notif_user = assigned_to a, notif_message = overdue_message env a,
         notif_link = assignment_link a, notif_level = WARNING\<rparr>]"
  by (simp add: process_assignment_def assignment_body_def case_prod_unfold fst_notify Let_def
      log_created_def split: mail_outcome.splits retry_outcome.splits)

lemma process_assignment_created:
  "notifications_created (process_assignment env a st) = notifications_created st + 2"
  by (simp add: process_assignment_def assignment_body_def case_prod_unfold fst_notify Let_def
      log_created_def split: mail_outcome.splits retry_outcome.splits)

lemma process_assignment_emails:
  "email_notifications (process_assignment env a st) =
     email_notifications st + (if delivered env a then 1 else 0)"
  by (simp add: process_assignment_def assignment_body_def case_prod_unfold fst_notify snd_notify
      log_created_def delivered_def attempted_def delivery_def Let_def
      split: mail_outcome.splits retry_outcome.splits)

lemma process_all_append:
  "process_all env (xs @ ys) st = process_all env ys (process_all env xs st)"
  by (induction xs arbitrary: st) simp_all

lemma process_all_notifications:
  "notifications (process_all env as st) =
     notifications st @
       concat (map (\<lambda>a. [\<lparr>notif_user = assigned_by a, notif_message = overdue_message env a,
                           notif_link = assignment_link a, notif_level = ALERT\<rparr>,
                          \<lparr>notif_user = assigned_to a, notif_message = overdue_message env a,
                           notif_link = assignment_link a, notif_level = WARNING\<rparr>]) as)"
  by (induction as arbitrary: st) (simp_all add: process_assignment_notifications)

lemma process_all_created:
  "notifications_created (process_all env as st) = notifications_created st + 2 * length as"
  by (induction as arbitrary: st) (simp_all add: process_assignment_created)

lemma process_all_emails:
  "email_notifications (process_all env as st) =
     email_notifications st + length (filter (delivered env) as)"
  by (induction as arbitrary: st) (simp_all add: process_assignment_emails)

lemma is_overdue_iff:
  "is_overdue now a \<longleftrightarrow> date_returned a = None \<and> (\<exists>d. date_due a = Some d \<and> d < now)"
  by (auto simp: is_overdue_def split: option.splits)

text \<open>
  C6. One run of the overdue check creates, for every open assignment whose due
  timestamp is in the past and for no other, exactly two notifications, in this order:
  one of level \<open>ALERT\<close> for the assigning user and one of level \<open>WARNING\<close> for the
  holding user. Neither the e-mail addresses nor the mail transport play a part. The
  overdue count of the result is the number of these assignments, and the notification
  count is twice that.
\<close>

theorem overdue_check_creates_two_notifications:
  "notifications (fst (check_overdue_assignments env now assignments notifs logs)) =
     notifs @
     concat (map (\<lambda>a. [\<lparr>notif_user = assigned_by a, notif_message = overdue_message env a,
                         notif_link = assignment_link a, notif_level = ALERT\<rparr>,
                        \<lparr>notif_user = assigned_to a, notif_message = overdue_message env a,
                         notif_link = assignment_link a, notif_level = WARNING\<rparr>])
       (filter (\<lambda>a. date_returned a = None \<and> (\<exists>d. date_due a = Some d \<and> d < now))
          assignments)) \<and>
   overdue_count (snd (check_overdue_assignments env now assignments notifs logs)) =
     length (filter (\<lambda>a. date_returned a = None \<and> (\<exists>d. date_due a = Some d \<and> d < now))
               assignments) \<and>
   res_notifications_created (snd (check_overdue_assignments env now assignments notifs logs)) =
     2 * length (filter (\<lambda>a. date_returned a = None \<and> (\<exists>d. date_due a = Some d \<and> d < now))
                   assignments)"
proof -
  have ov: "overdue now assignments =
      filter (\<lambda>a. date_returned a = None \<and> (\<exists>d. date_due a = Some d \<and> d < now)) assignments"
    unfolding overdue_def by (rule filter_cong) (simp_all add: is_overdue_iff)
  show ?thesis
    unfolding ov [symmetric]
    by (simp add: check_overdue_assignments_def Let_def process_all_notifications
        process_all_created start_state_def)
qed

theorem overdue_check_creates_two_notifications_witness:
  "map (\<lambda>n. (username (notif_user n), notif_level n))
     (notifications (fst (check_overdue_assignments failing_mail_env 100 example_assignments [] []))) =
     [(''alice'', ALERT), (''bob'', WARNING)] \<and>
   email bob = [] \<and>
   overdue_count (snd (check_overdue_assignments failing_mail_env 100 example_assignments [] [])) = 1 \<and>
   res_notifications_created
     (snd (check_overdue_assignments failing_mail_env 100 example_assignments [] [])) = 2"
  using overdue_check_creates_two_notifications
          [of failing_mail_env 100 example_assignments "[]" "[]"]
  by (simp add: example_assignments_def example_overdue_def alice_def bob_def)

lemma created_not_exhausted:
  "\<not> describes_exhausted_retries (audit a (created_description n a))"
  by (simp add: describes_exhausted_retries_def audit_def created_description_def)

lemma failed_exhausted:
  "describes_exhausted_retries (audit a (failed_description exc))"
  by (simp add: describes_exhausted_retries_def audit_def failed_description_def)

text \<open>
  The branch that the code provides for exhausted retries: were \<open>self.retry\<close> to raise
  \<open>MaxRetriesExceededError\<close>, two audit entries would be appended, the first of them
  describing the exhausted retries.
\<close>

lemma process_assignment_exhausted:
  assumes "recipients_of a \<noteq> []" and "EMAIL_HOST env \<noteq> []"
      and "delivery env a = SendRaises exc"
      and "retry env (assignment_id a) exc = MaxRetriesExceededError"
  shows "audit_log (process_assignment env a st) =
           audit_log st @ [audit a (failed_description exc),
                           audit a (created_description (notifications_created st + 2) a)]"
  using assms
  by (simp add: process_assignment_def assignment_body_def case_prod_unfold fst_notify snd_notify
      log_created_def delivery_def Let_def)

text \<open>
  When \<open>self.retry\<close> raises anything else than \<open>MaxRetriesExceededError\<close>, the exception
  reaches the outer handler: one audit entry records it as an unexpected error, and
  the e-mail counter stays as it was.
\<close>

lemma process_assignment_retry_raises:
  assumes "recipients_of a \<noteq> []" and "EMAIL_HOST env \<noteq> []"
      and "delivery env a = SendRaises exc"
      and "retry env (assignment_id a) exc = RetryRaises e"
  shows "audit_log (process_assignment env a st) =
           audit_log st @ [audit a (unexpected_description e)]"
    and "email_notifications (process_assignment env a st) = email_notifications st"
  using assms
  by (simp_all add: process_assignment_def assignment_body_def case_prod_unfold fst_notify
      snd_notify delivery_def Let_def)

text \<open>
  Under Celery the branch for exhausted retries is never entered: whatever the number
  of retries, \<open>self.retry(exc=exc)\<close> raises something else.
\<close>

lemma celery_retry_never_max: "celery_retry retries exc \<noteq> MaxRetriesExceededError"
  by (simp add: celery_retry_def)

text \<open>
  C1. The claim is that an overdue assignment whose mail fails on every attempt gets
  one audit entry that describes the exhausted retries. The code provides that entry
  in its handler for \<open>MaxRetriesExceededError\<close>, but a run under Celery does not reach
  it. In the run after the three retries, with two overdue assignments and the mail of
  the first refused: \<open>self.retry\<close> raises the transport's exception again, the outer
  handler records it as an unexpected error, and no audit entry describes exhausted
  retries. The rest of the claim holds in this run: no e-mail is counted for the first
  assignment, the job goes on to the second, whose mail is delivered, and returns its
  result.
\<close>

theorem exhausted_retries_not_audited:
  "overdue 100 two_overdue = [example_overdue, second_overdue] \<and>
   attempted celery_mail_env example_overdue \<and>
   delivery celery_mail_env example_overdue = SendRaises ''connection refused'' \<and>
   retry celery_mail_env (assignment_id example_overdue) ''connection refused'' =
     RetryRaises ''connection refused'' \<and>
   map log_description
     (audit_log (fst (check_overdue_assignments celery_mail_env 100 two_overdue [] []))) =
     [''Unexpected error in overdue task: connection refused'',
      ''Created 4 notifications for overdue assignment 10''] \<and>
   filter describes_exhausted_retries
     (audit_log (fst (check_overdue_assignments celery_mail_env 100 two_overdue [] []))) = [] \<and>
   snd (check_overdue_assignments celery_mail_env 100 two_overdue [] []) =
     \<lparr>overdue_count = 2, res_notifications_created = 4, res_email_notifications = 1\<rparr>"
  by (simp add: check_overdue_assignments_def process_assignment_def assignment_body_def
      notify_def Let_def log_created_def audit_def unexpected_description_def
      created_description_def start_state_def example_overdue_def second_overdue_def
      two_overdue_def alice_def bob_def celery_mail_env_def celery_retry_def max_retries_def
      str_nat.simps digit_char_def overdue_def is_overdue_def attempted_def delivery_def
      recipients_of_def describes_exhausted_retries_def overdue_subject_def)

section \<open>Properties: the reconciliation\<close>

lemma matching_rows_set:
  "set (matching_rows db m) = {i. i < length db \<and> iexact (mac_address (db ! i)) m}"
  by (auto simp: matching_rows_def)

lemma get_by_mac_Found:
  assumes "get_by_mac db m = Found i"
  shows "i < length db \<and> iexact (mac_address (db ! i)) m \<and>
         (\<forall>j < length db. iexact (mac_address (db ! j)) m \<longrightarrow> j = i)"
proof -
  from assms have "matching_rows db m = [i]"
    by (simp add: get_by_mac_def split: list.splits)
  then have "set (matching_rows db m) = {i}" by simp
  then show ?thesis unfolding matching_rows_set by blast
qed

lemma get_by_mac_DoesNotExist:
  "get_by_mac db m = DoesNotExist \<longleftrightarrow> (\<forall>j < length db. \<not> iexact (mac_address (db ! j)) m)"
proof -
  have "get_by_mac db m = DoesNotExist \<longleftrightarrow> matching_rows db m = []"
    by (simp add: get_by_mac_def split: list.splits)
  also have "\<dots> \<longleftrightarrow> set (matching_rows db m) = {}" by simp
  also have "\<dots> \<longleftrightarrow> (\<forall>j < length db. \<not> iexact (mac_address (db ! j)) m)"
    unfolding matching_rows_set by blast
  finally show ?thesis .
qed

lemma get_by_mac_cong:
  "map mac_address db' = map mac_address db \<Longrightarrow> get_by_mac db' m = get_by_mac db m"
proof -
  assume a: "map mac_address db' = map mac_address db"
  then have l: "length db' = length db" by (metis length_map)
  have "\<And>i. i < length db \<Longrightarrow> mac_address (db' ! i) = mac_address (db ! i)"
    using a l by (metis nth_map)
  then have "matching_rows db' m = matching_rows db m"
    unfolding matching_rows_def l by (intro filter_cong) simp_all
  then show ?thesis by (simp add: get_by_mac_def)
qed

text \<open>An IPv4 address, which has no colon, is stored as it is.\<close>

lemma get_prep_value_no_colon:
  "CHR '':'' \<notin> set s \<Longrightarrow> get_prep_value clean (Some s) = Some s"
  by (simp add: get_prep_value_def)

lemma save_table:
  "snd (save clean gen i a db) =
     db[i := (if asset_tag a = [] then a\<lparr>asset_tag := gen a\<rparr> else a)
               \<lparr>ip_address := get_prep_value clean (ip_address a)\<rparr>]"
  by (simp add: save_def Let_def)

text \<open>One step of the loop, case by case.\<close>

lemma core_step_cases:
  assumes "core_step marker clean gen now r (db, n) = Inr (db', n')"
  obtains
    (miss) "\<forall>j < length db. \<not> hit r (db ! j)" "db' = db" "n' = n"
  | (found) i a' where "i < length db" "hit r (db ! i)"
      "\<forall>j < length db. hit r (db ! j) \<longrightarrow> j = i"
      "db' = db[i := a']"
      "mac_address a' = mac_address (db ! i)"
      "network_last_seen a' = Some now"
      "ip_address a' = get_prep_value clean (Some (res_ip_address r))"
      "status a' = (if status (db ! i) = MISSING then AVAILABLE else status (db ! i))"
      "location a' = (if status (db ! i) = MISSING then marker @ res_ip_address r
                      else location (db ! i))"
      "n' = (if status (db ! i) = MISSING then n + 1 else n)"
proof (cases "truthy (res_mac_address r)")
  case False
  with assms have e: "db' = db" "n' = n" by (simp_all add: core_step_def)
  from False have "\<forall>j < length db. \<not> hit r (db ! j)" by (simp add: hit_def)
  then show ?thesis using e by (rule miss)
next
  case True
  show ?thesis
  proof (cases "get_by_mac db (the (res_mac_address r))")
    case DoesNotExist
    with assms True have e: "db' = db" "n' = n" by (simp_all add: core_step_def)
    from DoesNotExist have "\<forall>j < length db. \<not> hit r (db ! j)"
      by (simp add: get_by_mac_DoesNotExist hit_def)
    then show ?thesis using e by (rule miss)
  next
    case MultipleObjectsReturned
    with assms True show ?thesis by (simp add: core_step_def)
  next
    case (Found i)
    define a where "a = refresh marker now r (db ! i)"
    define a' where "a' = (if asset_tag a = [] then a\<lparr>asset_tag := gen a\<rparr> else a)
      \<lparr>ip_address := get_prep_value clean (ip_address a)\<rparr>"
    from get_by_mac_Found [OF Found] True
    have i: "i < length db" "hit r (db ! i)" "\<forall>j < length db. hit r (db ! j) \<longrightarrow> j = i"
      by (simp_all add: hit_def)
    from assms True Found have db': "db' = db[i := a']"
      and n': "n' = (if status (db ! i) = MISSING then n + 1 else n)"
      by (auto simp: core_step_def save_table a_def a'_def)
    have p: "mac_address a' = mac_address (db ! i)"
      "network_last_seen a' = Some now"
      "ip_address a' = get_prep_value clean (Some (res_ip_address r))"
      "status a' = (if status (db ! i) = MISSING then AVAILABLE else status (db ! i))"
      "location a' = (if status (db ! i) = MISSING then marker @ res_ip_address r
                      else location (db ! i))"
      by (simp_all add: a'_def a_def refresh_def)
    show ?thesis by (rule found [OF i db' p n'])
  qed
qed

lemma hit_cong: "mac_address a = mac_address b \<Longrightarrow> hit r a = hit r b"
  by (simp add: hit_def)

text \<open>One step of the loop, row by row.\<close>

lemma core_step_length:
  assumes "core_step marker clean gen now r (db, n) = Inr (db', n')"
  shows "length db' = length db"
  using assms
proof (cases rule: core_step_cases)
  case miss
  then show ?thesis by simp
next
  case (found i a')
  from found(4) show ?thesis by simp
qed

lemma core_step_row:
  assumes "core_step marker clean gen now r (db, n) = Inr (db', n')" and j: "j < length db"
  shows "mac_address (db' ! j) = mac_address (db ! j)"
    and "status (db' ! j) =
           (if status (db ! j) = MISSING \<and> hit r (db ! j) then AVAILABLE else status (db ! j))"
    and "location (db' ! j) =
           (if status (db ! j) = MISSING \<and> hit r (db ! j) then marker @ res_ip_address r
            else location (db ! j))"
    and "\<not> hit r (db ! j) \<Longrightarrow> db' ! j = db ! j"
    and "hit r (db ! j) \<Longrightarrow>
           network_last_seen (db' ! j) = Some now \<and> ip_address (db' ! j) = get_prep_value clean (Some (res_ip_address r))"
proof -
  from assms(1)
  have all: "mac_address (db' ! j) = mac_address (db ! j) \<and>
        status (db' ! j) =
           (if status (db ! j) = MISSING \<and> hit r (db ! j) then AVAILABLE else status (db ! j)) \<and>
        location (db' ! j) =
           (if status (db ! j) = MISSING \<and> hit r (db ! j) then marker @ res_ip_address r
            else location (db ! j)) \<and>
        (\<not> hit r (db ! j) \<longrightarrow> db' ! j = db ! j) \<and>
        (hit r (db ! j) \<longrightarrow>
           network_last_seen (db' ! j) = Some now \<and> ip_address (db' ! j) = get_prep_value clean (Some (res_ip_address r)))"
  proof (cases rule: core_step_cases)
    case miss
    with j show ?thesis by simp
  next
    case (found i a')
    show ?thesis
    proof (cases "j = i")
      case True
      from found(1,2,4-9) True show ?thesis by simp
    next
      case False
      with found(3) j have "\<not> hit r (db ! j)" by blast
      with found(4) False show ?thesis by simp
    qed
  qed
  from all show "mac_address (db' ! j) = mac_address (db ! j)" by (rule conjunct1)
  from all show "status (db' ! j) =
      (if status (db ! j) = MISSING \<and> hit r (db ! j) then AVAILABLE else status (db ! j))"
    by (elim conjE)
  from all show "location (db' ! j) =
      (if status (db ! j) = MISSING \<and> hit r (db ! j) then marker @ res_ip_address r
       else location (db ! j))"
    by (elim conjE)
  from all have "\<not> hit r (db ! j) \<longrightarrow> db' ! j = db ! j"
    by (elim conjE)
  then show "\<not> hit r (db ! j) \<Longrightarrow> db' ! j = db ! j" by (rule mp)
  from all have "hit r (db ! j) \<longrightarrow>
      network_last_seen (db' ! j) = Some now \<and> ip_address (db' ! j) = get_prep_value clean (Some (res_ip_address r))"
    by (elim conjE)
  then show "hit r (db ! j) \<Longrightarrow>
      network_last_seen (db' ! j) = Some now \<and> ip_address (db' ! j) = get_prep_value clean (Some (res_ip_address r))"
    by (rule mp)
qed

lemma core_step_count:
  assumes "core_step marker clean gen now r (db, n) = Inr (db', n')"
  shows "n' = n + card {j. j < length db \<and> status (db ! j) = MISSING \<and> hit r (db ! j)}"
  using assms
proof (cases rule: core_step_cases)
  case miss
  then have "{j. j < length db \<and> status (db ! j) = MISSING \<and> hit r (db ! j)} = {}" by blast
  with miss(3) show ?thesis by simp
next
  case (found i a')
  show ?thesis
  proof (cases "status (db ! i) = MISSING")
    case True
    with found(1-3) have "{j. j < length db \<and> status (db ! j) = MISSING \<and> hit r (db ! j)} = {i}"
      by blast
    with found(10) True show ?thesis by simp
  next
    case False
    with found(1-3) have "{j. j < length db \<and> status (db ! j) = MISSING \<and> hit r (db ! j)} = {}"
      by blast
    with found(10) False show ?thesis by simp
  qed
qed



lemma core_loop_Cons_Inr:
  assumes "core_loop marker clean gen now (r # rs) (db, n) = Inr (db', n')"
  obtains db1 n1 where
    "core_step marker clean gen (now 0) r (db, n) = Inr (db1, n1)"
    "core_loop marker clean gen (\<lambda>k. now (Suc k)) rs (db1, n1) = Inr (db', n')"
proof (cases "core_step marker clean gen (now 0) r (db, n)")
  case (Inl s)
  with assms show ?thesis by simp
next
  case (Inr s)
  obtain db1 n1 where s: "s = (db1, n1)" by (cases s)
  from assms Inr s that show ?thesis by simp
qed

text \<open>A complete pass, row by row.\<close>

lemma core_loop_rows:
  assumes "core_loop marker clean gen now rs (db, n) = Inr (db', n')"
  shows "length db' = length db \<and>
         (\<forall>j < length db.
            mac_address (db' ! j) = mac_address (db ! j) \<and>
            status (db' ! j) =
              (if status (db ! j) = MISSING \<and> (\<exists>r \<in> set rs. hit r (db ! j)) then AVAILABLE
               else status (db ! j)) \<and>
            (status (db ! j) \<noteq> MISSING \<longrightarrow> location (db' ! j) = location (db ! j)) \<and>
            ((\<forall>r \<in> set rs. \<not> hit r (db ! j)) \<longrightarrow> db' ! j = db ! j))"
  using assms
proof (induction rs arbitrary: now db n)
  case Nil
  then show ?case by simp
next
  case (Cons r rs)
  from Cons.prems obtain db1 n1 where
    step: "core_step marker clean gen (now 0) r (db, n) = Inr (db1, n1)" and
    rest: "core_loop marker clean gen (\<lambda>k. now (Suc k)) rs (db1, n1) = Inr (db', n')"
    by (rule core_loop_Cons_Inr)
  note ih = Cons.IH [OF rest]
  have len1: "length db1 = length db" by (rule core_step_length [OF step])
  show ?case
  proof (intro conjI allI impI)
    show "length db' = length db" using ih len1 by simp
  next
    fix j assume j: "j < length db"
    then have j1: "j < length db1" using len1 by simp
    note s = core_step_row [OF step j]
    have hc: "hit r' (db1 ! j) = hit r' (db ! j)" for r'
      by (rule hit_cong [OF s(1)])
    from ih j1 have i1: "mac_address (db' ! j) = mac_address (db1 ! j)" by blast
    from ih j1 have i2: "status (db' ! j) =
        (if status (db1 ! j) = MISSING \<and> (\<exists>r \<in> set rs. hit r (db1 ! j)) then AVAILABLE
         else status (db1 ! j))" by blast
    from ih j1 have i3: "status (db1 ! j) \<noteq> MISSING \<longrightarrow> location (db' ! j) = location (db1 ! j)"
      by blast
    from ih j1 have i4: "(\<forall>r \<in> set rs. \<not> hit r (db1 ! j)) \<longrightarrow> db' ! j = db1 ! j" by blast
    show "mac_address (db' ! j) = mac_address (db ! j)" using i1 s(1) by simp
    show "status (db' ! j) =
        (if status (db ! j) = MISSING \<and> (\<exists>r \<in> set (r # rs). hit r (db ! j)) then AVAILABLE
         else status (db ! j))"
    proof (cases "status (db ! j) = MISSING")
      case False
      with s(2) have "status (db1 ! j) = status (db ! j)" by simp
      with i2 False show ?thesis by simp
    next
      case True
      show ?thesis
      proof (cases "hit r (db ! j)")
        case h: True
        with True s(2) have "status (db1 ! j) = AVAILABLE" by simp
        with i2 have "status (db' ! j) = AVAILABLE" by simp
        with True h show ?thesis by simp
      next
        case h: False
        with s(2) have "status (db1 ! j) = status (db ! j)" by simp
        with i2 True h show ?thesis by (simp add: hc)
      qed
    qed
    { assume "status (db ! j) \<noteq> MISSING"
      with s(2,3) i3 show "location (db' ! j) = location (db ! j)" by simp }
    { assume "\<forall>r \<in> set (r # rs). \<not> hit r (db ! j)"
      then have a: "\<not> hit r (db ! j)" and b: "\<forall>r \<in> set rs. \<not> hit r (db1 ! j)"
        unfolding hc by simp_all
      from i4 b s(4) [OF a] show "db' ! j = db ! j" by simp }
  qed
qed

lemma core_loop_macs:
  assumes "core_loop marker clean gen now rs (db, n) = Inr (db', n')"
  shows "map mac_address db' = map mac_address db"
  using core_loop_rows [OF assms] by (simp add: list_eq_iff_nth_eq)

text \<open>The recovered counter counts the rows that were missing and are hit.\<close>

lemma core_loop_count:
  assumes "core_loop marker clean gen now rs (db, n) = Inr (db', n')"
  shows "n' = n + card {j. j < length db \<and> status (db ! j) = MISSING \<and>
                           (\<exists>r \<in> set rs. hit r (db ! j))}"
  using assms
proof (induction rs arbitrary: now db n)
  case Nil
  then show ?case by simp
next
  case (Cons r rs)
  from Cons.prems obtain db1 n1 where
    step: "core_step marker clean gen (now 0) r (db, n) = Inr (db1, n1)" and
    rest: "core_loop marker clean gen (\<lambda>k. now (Suc k)) rs (db1, n1) = Inr (db', n')"
    by (rule core_loop_Cons_Inr)
  define A where "A = {j. j < length db \<and> status (db ! j) = MISSING \<and> hit r (db ! j)}"
  define B where "B = {j. j < length db1 \<and> status (db1 ! j) = MISSING \<and>
                          (\<exists>r \<in> set rs. hit r (db1 ! j))}"
  have len1: "length db1 = length db" by (rule core_step_length [OF step])
  have n1: "n1 = n + card A" unfolding A_def by (rule core_step_count [OF step])
  have n': "n' = n1 + card B" unfolding B_def by (rule Cons.IH [OF rest])
  have B: "B = {j. j < length db \<and> status (db ! j) = MISSING \<and> \<not> hit r (db ! j) \<and>
                   (\<exists>r \<in> set rs. hit r (db ! j))}"
  proof -
    have "(j < length db1 \<and> status (db1 ! j) = MISSING \<and> (\<exists>r \<in> set rs. hit r (db1 ! j))) =
          (j < length db \<and> status (db ! j) = MISSING \<and> \<not> hit r (db ! j) \<and>
             (\<exists>r \<in> set rs. hit r (db ! j)))" for j
    proof (cases "j < length db")
      case False
      then show ?thesis using len1 by simp
    next
      case True
      note s = core_step_row [OF step True]
      have hc: "hit r' (db1 ! j) = hit r' (db ! j)" for r'
        by (rule hit_cong [OF s(1)])
      have "(status (db1 ! j) = MISSING) = (status (db ! j) = MISSING \<and> \<not> hit r (db ! j))"
        unfolding s(2) by auto
      then show ?thesis using True len1 by (simp add: hc)
    qed
    then show ?thesis unfolding B_def by simp
  qed
  have fin: "finite A" "finite B" unfolding A_def B by simp_all
  have disj: "A \<inter> B = {}" unfolding A_def B by blast
  have un: "{j. j < length db \<and> status (db ! j) = MISSING \<and> (\<exists>r \<in> set (r # rs). hit r (db ! j))}
              = A \<union> B"
    unfolding A_def B by auto
  show ?case
    unfolding un using n1 n' card_Un_disjoint [OF fin disj] by simp
qed


text \<open>A row that was missing and is hit carries the address of a result that hits it.\<close>

lemma core_loop_location:
  assumes "core_loop marker clean gen now rs (db, n) = Inr (db', n')"
      and "j < length db" and "status (db ! j) = MISSING" and "\<exists>r \<in> set rs. hit r (db ! j)"
  shows "\<exists>r \<in> set rs. hit r (db ! j) \<and> location (db' ! j) = marker @ res_ip_address r"
  using assms
proof (induction rs arbitrary: now db n)
  case Nil
  then show ?case by simp
next
  case (Cons r rs)
  from Cons.prems(1) obtain db1 n1 where
    step: "core_step marker clean gen (now 0) r (db, n) = Inr (db1, n1)" and
    rest: "core_loop marker clean gen (\<lambda>k. now (Suc k)) rs (db1, n1) = Inr (db', n')"
    by (rule core_loop_Cons_Inr)
  have len1: "length db1 = length db" by (rule core_step_length [OF step])
  have j1: "j < length db1" using Cons.prems(2) len1 by simp
  note s = core_step_row [OF step Cons.prems(2)]
  show ?case
  proof (cases "hit r (db ! j)")
    case True
    with s(2,3) Cons.prems(3)
    have "status (db1 ! j) = AVAILABLE" and l: "location (db1 ! j) = marker @ res_ip_address r"
      by simp_all
    then have "status (db1 ! j) \<noteq> MISSING" by simp
    with core_loop_rows [OF rest] j1 have "location (db' ! j) = location (db1 ! j)" by blast
    with l True show ?thesis by simp
  next
    case False
    from s(4) [OF False] have e: "db1 ! j = db ! j" .
    from False Cons.prems(4) have "\<exists>r \<in> set rs. hit r (db ! j)" by simp
    with Cons.IH [OF rest j1] e Cons.prems(3)
    have "\<exists>r \<in> set rs. hit r (db ! j) \<and> location (db' ! j) = marker @ res_ip_address r"
      by simp
    then show ?thesis by auto
  qed
qed

text \<open>
  Whether a pass completes depends on the hardware addresses in the table only, and
  a pass does not change them.
\<close>

lemma core_step_Inr_iff:
  "(\<exists>s'. core_step marker clean gen now r s = Inr s') \<longleftrightarrow>
   \<not> (truthy (res_mac_address r) \<and>
      get_by_mac (fst s) (the (res_mac_address r)) = MultipleObjectsReturned)"
  by (cases "get_by_mac (fst s) (the (res_mac_address r))") (simp_all add: core_step_def)

lemma core_loop_completes:
  assumes "core_loop marker clean gen now rs (db, n) = Inr (db', n')"
      and "map mac_address db2 = map mac_address db"
  shows "\<exists>s2. core_loop marker2 clean gen2 now2 rs (db2, n2) = Inr s2"
  using assms
proof (induction rs arbitrary: now now2 db n db2 n2)
  case Nil
  then show ?case by simp
next
  case (Cons r rs)
  from Cons.prems(1) obtain db1 n1 where
    step: "core_step marker clean gen (now 0) r (db, n) = Inr (db1, n1)" and
    rest: "core_loop marker clean gen (\<lambda>k. now (Suc k)) rs (db1, n1) = Inr (db', n')"
    by (rule core_loop_Cons_Inr)
  from step have "\<not> (truthy (res_mac_address r) \<and>
      get_by_mac db (the (res_mac_address r)) = MultipleObjectsReturned)"
    using core_step_Inr_iff [of marker clean gen "now 0" r "(db, n)"] by simp
  then have "\<not> (truthy (res_mac_address r) \<and>
      get_by_mac db2 (the (res_mac_address r)) = MultipleObjectsReturned)"
    by (simp add: get_by_mac_cong [OF Cons.prems(2)])
  then obtain s3 where s3: "core_step marker2 clean gen2 (now2 0) r (db2, n2) = Inr s3"
    using core_step_Inr_iff [of marker2 clean gen2 "now2 0" r "(db2, n2)"] by auto
  obtain db3 n3 where p: "s3 = (db3, n3)" by (cases s3)
  have m1: "map mac_address db1 = map mac_address db"
    using core_step_length [OF step] core_step_row(1) [OF step]
    by (simp add: list_eq_iff_nth_eq)
  have l3: "length db3 = length db2"
    using s3 unfolding p by (rule core_step_length)
  have r3: "mac_address (db3 ! j) = mac_address (db2 ! j)" if "j < length db2" for j
    using s3 that unfolding p by (rule core_step_row(1))
  have m3: "map mac_address db3 = map mac_address db2"
    using l3 r3 by (simp add: list_eq_iff_nth_eq)
  have "map mac_address db3 = map mac_address db1"
    using m1 m3 Cons.prems(2) by simp
  from Cons.IH [OF rest this]
  obtain s2 where "core_loop marker2 clean gen2 (\<lambda>k. now2 (Suc k)) rs (db3, n3) = Inr s2"
    by blast
  with s3 p show ?case by simp
qed

text \<open>
  Both loops of the source act on the table and on their counter of recovered assets
  as the common loop does.
\<close>

lemma update_asset_refresh:
  "update_asset now r a = (refresh ''Detected on network: '' now r a, status a = MISSING)"
  by (cases a) (simp add: update_asset_def refresh_def Let_def)

lemma reconcile_result_core:
  "map_sum (\<lambda>st. (table st, found_missing st)) (\<lambda>st. (table st, found_missing st))
     (reconcile_result clean gen now r st) =
   core_step ''Detected on network: '' clean gen now r (table st, found_missing st)"
  by (cases "get_by_mac (table st) (the (res_mac_address r))")
     (simp_all add: reconcile_result_def core_step_def update_asset_refresh save_def Let_def)

lemma reconcile_loop_core:
  "map_sum (\<lambda>st. (table st, found_missing st)) (\<lambda>st. (table st, found_missing st))
     (reconcile_loop clean gen now rs st) =
   core_loop ''Detected on network: '' clean gen now rs (table st, found_missing st)"
proof (induction rs arbitrary: now st)
  case Nil
  show ?case by simp
next
  case (Cons r rs)
  show ?case
  proof (cases "reconcile_result clean gen (now 0) r st")
    case (Inl st')
    with reconcile_result_core [of clean gen "now 0" r st]
    have "core_step ''Detected on network: '' clean gen (now 0) r (table st, found_missing st) =
            Inl (table st', found_missing st')"
      by simp
    with Inl show ?thesis by simp
  next
    case (Inr st')
    with reconcile_result_core [of clean gen "now 0" r st]
    have "core_step ''Detected on network: '' clean gen (now 0) r (table st, found_missing st) =
            Inr (table st', found_missing st')"
      by simp
    with Inr Cons.IH [of "\<lambda>k. now (Suc k)" st'] show ?thesis by simp
  qed
qed

lemma update_assets_core:
  assumes "update_assets clean gen now rs db = (db', Inr s)"
  shows "core_loop ''Detected on network: '' clean gen now rs (db, 0) = Inr (db', missing_found s)"
proof -
  let ?st0 = "\<lparr>table = db, done_results = [], matched = 0, found_missing = 0\<rparr>"
  from assms obtain st where st: "reconcile_loop clean gen now rs ?st0 = Inr st"
    and e: "db' = table st" "missing_found s = found_missing st"
    by (auto simp: update_assets_def split: sum.splits)
  from reconcile_loop_core [of clean gen now rs ?st0] st e show ?thesis by simp
qed

lemma handle_result_core:
  "map_sum (\<lambda>st. (cmd_table st, cmd_missing_found st)) (\<lambda>st. (cmd_table st, cmd_missing_found st))
     (handle_result clean gen now r st) =
   core_step ''Auto-detected: '' clean gen now r (cmd_table st, cmd_missing_found st)"
  by (cases "get_by_mac (cmd_table st) (the (res_mac_address r))")
     (simp_all add: handle_result_def core_step_def save_def refresh_def Let_def)

lemma handle_loop_core:
  "map_sum (\<lambda>st. (cmd_table st, cmd_missing_found st)) (\<lambda>st. (cmd_table st, cmd_missing_found st))
     (handle_loop clean gen now rs st) =
   core_loop ''Auto-detected: '' clean gen now rs (cmd_table st, cmd_missing_found st)"
proof (induction rs arbitrary: now st)
  case Nil
  show ?case by simp
next
  case (Cons r rs)
  show ?case
  proof (cases "handle_result clean gen (now 0) r st")
    case (Inl st')
    with handle_result_core [of clean gen "now 0" r st]
    have "core_step ''Auto-detected: '' clean gen (now 0) r (cmd_table st, cmd_missing_found st) =
            Inl (cmd_table st', cmd_missing_found st')"
      by simp
    with Inl show ?thesis by simp
  next
    case (Inr st')
    with handle_result_core [of clean gen "now 0" r st]
    have "core_step ''Auto-detected: '' clean gen (now 0) r (cmd_table st, cmd_missing_found st) =
            Inr (cmd_table st', cmd_missing_found st')"
      by simp
    with Inr Cons.IH [of "\<lambda>k. now (Suc k)" st'] show ?thesis by simp
  qed
qed

lemma handle_results_core:
  assumes "handle_results clean gen now rs st0 = Inr st"
  shows "core_loop ''Auto-detected: '' clean gen now rs (cmd_table st0, cmd_missing_found st0) =
           Inr (cmd_table st, cmd_missing_found st)"
proof -
  from assms obtain st1 where st1: "handle_loop clean gen now rs st0 = Inr st1"
    and e: "cmd_table st = cmd_table st1" "cmd_missing_found st = cmd_missing_found st1"
    by (auto simp: handle_results_def split: sum.splits)
  from handle_loop_core [of clean gen now rs st0] st1 e show ?thesis by simp
qed

text \<open>
  A row that is hit carries the time and the address of the last result that hits it.
\<close>

lemma core_loop_last_hit:
  assumes "core_loop marker clean gen now rs (db, n) = Inr (db', n')"
      and "j < length db" and "\<exists>r \<in> set rs. hit r (db ! j)"
  shows "\<exists>k < length rs. hit (rs ! k) (db ! j) \<and>
           (\<forall>k' < length rs. k < k' \<longrightarrow> \<not> hit (rs ! k') (db ! j)) \<and>
           network_last_seen (db' ! j) = Some (now k) \<and>
           ip_address (db' ! j) = get_prep_value clean (Some (res_ip_address (rs ! k)))"
  using assms
proof (induction rs arbitrary: now db n)
  case Nil
  then show ?case by simp
next
  case (Cons r rs)
  from Cons.prems(1) obtain db1 n1 where
    step: "core_step marker clean gen (now 0) r (db, n) = Inr (db1, n1)" and
    rest: "core_loop marker clean gen (\<lambda>k. now (Suc k)) rs (db1, n1) = Inr (db', n')"
    by (rule core_loop_Cons_Inr)
  have len1: "length db1 = length db" by (rule core_step_length [OF step])
  have j1: "j < length db1" using Cons.prems(2) len1 by simp
  note s = core_step_row [OF step Cons.prems(2)]
  have hc: "hit r' (db1 ! j) = hit r' (db ! j)" for r'
    by (rule hit_cong [OF s(1)])
  show ?case
  proof (cases "\<exists>r' \<in> set rs. hit r' (db ! j)")
    case True
    then have "\<exists>r' \<in> set rs. hit r' (db1 ! j)" by (simp add: hc)
    from Cons.IH [OF rest j1 this] obtain k where
      k: "k < length rs" "hit (rs ! k) (db1 ! j)"
         "\<forall>k' < length rs. k < k' \<longrightarrow> \<not> hit (rs ! k') (db1 ! j)"
         "network_last_seen (db' ! j) = Some (now (Suc k))"
         "ip_address (db' ! j) = get_prep_value clean (Some (res_ip_address (rs ! k)))"
      by blast
    from k(2) have h: "hit (rs ! k) (db ! j)" by (simp add: hc)
    have later: "\<not> hit ((r # rs) ! k') (db ! j)" if "k' < length (r # rs)" "Suc k < k'" for k'
    proof -
      from that obtain m where m: "k' = Suc m" by (cases k') simp_all
      with that have "m < length rs" "k < m" by simp_all
      with k(3) have "\<not> hit (rs ! m) (db1 ! j)" by blast
      then show ?thesis by (simp add: m hc)
    qed
    have "Suc k < length (r # rs) \<and> hit ((r # rs) ! Suc k) (db ! j) \<and>
        (\<forall>k' < length (r # rs). Suc k < k' \<longrightarrow> \<not> hit ((r # rs) ! k') (db ! j)) \<and>
        network_last_seen (db' ! j) = Some (now (Suc k)) \<and>
        ip_address (db' ! j) = get_prep_value clean (Some (res_ip_address ((r # rs) ! Suc k)))"
      using k(1,4,5) h later by simp
    then show ?thesis by blast
  next
    case False
    with Cons.prems(3) have h: "hit r (db ! j)" by auto
    from False have none: "\<forall>r' \<in> set rs. \<not> hit r' (db1 ! j)" by (simp add: hc)
    with core_loop_rows [OF rest] j1 have e: "db' ! j = db1 ! j" by blast
    have later: "\<not> hit ((r # rs) ! k') (db ! j)" if "k' < length (r # rs)" "0 < k'" for k'
    proof -
      from that obtain m where m: "k' = Suc m" by (cases k') simp_all
      with that have "rs ! m \<in> set rs" by simp
      with False show ?thesis by (auto simp: m)
    qed
    have "0 < length (r # rs) \<and> hit ((r # rs) ! 0) (db ! j) \<and>
        (\<forall>k' < length (r # rs). 0 < k' \<longrightarrow> \<not> hit ((r # rs) ! k') (db ! j)) \<and>
        network_last_seen (db' ! j) = Some (now 0) \<and>
        ip_address (db' ! j) = get_prep_value clean (Some (res_ip_address ((r # rs) ! 0)))"
      using s(5) [OF h] e h later by simp
    then show ?thesis by blast
  qed
qed

lemma last_hit_unique:
  assumes "k1 < length rs" "P (rs ! k1)" "\<forall>k' < length rs. k1 < k' \<longrightarrow> \<not> P (rs ! k')"
      and "k2 < length rs" "P (rs ! k2)" "\<forall>k' < length rs. k2 < k' \<longrightarrow> \<not> P (rs ! k')"
  shows "k1 = (k2::nat)"
proof (rule ccontr)
  assume "k1 \<noteq> k2"
  then consider "k1 < k2" | "k2 < k1" by linarith
  then show False
  proof cases
    case 1
    with assms(3,4,5) show False by blast
  next
    case 2
    with assms(6,1,2) show False by blast
  qed
qed

section \<open>Properties: the reconciliation, claim by claim\<close>

lemmas example_defs =
  example_table_def lost_camera_def camera_def mixer_def host_def seen_camera_def seen_mixer_def
  unknown_host_def silent_host_def example_clean_def example_gen_def example_clock_def
  example_cmd_state_def

lemmas recon_defs =
  update_assets_def reconcile_result_def get_by_mac_def matching_rows_def iexact_def upper_def
  upper_char_def truthy_def update_asset_def save_def get_prep_value_def Let_def upt_rec

lemmas cmd_defs =
  handle_results_def handle_result_def get_by_mac_def matching_rows_def iexact_def upper_def
  upper_char_def truthy_def save_def get_prep_value_def Let_def upt_rec summary_line_def
  str_nat.simps
  digit_char_def

text \<open>
  A pass completes when no result is ambiguous.
\<close>

lemma ambiguous_cong:
  assumes "map mac_address db' = map mac_address db"
  shows "ambiguous db' r = ambiguous db r"
  unfolding ambiguous_def get_by_mac_cong [OF assms] ..

lemma core_loop_unambiguous:
  assumes "\<forall>r \<in> set rs. \<not> ambiguous db r"
  shows "\<exists>s. core_loop marker clean gen now rs (db, n) = Inr s"
  using assms
proof (induction rs arbitrary: now db n)
  case Nil
  show ?case by simp
next
  case (Cons r rs)
  from Cons.prems have "\<not> ambiguous db r" by simp
  then obtain s1 where s1: "core_step marker clean gen (now 0) r (db, n) = Inr s1"
    using core_step_Inr_iff [of marker clean gen "now 0" r "(db, n)"]
    by (auto simp: ambiguous_def)
  obtain db1 n1 where p: "s1 = (db1, n1)" by (cases s1)
  note step = s1 [unfolded p]
  have "map mac_address db1 = map mac_address db"
    using core_step_length [OF step] core_step_row(1) [OF step]
    by (simp add: list_eq_iff_nth_eq)
  note same = ambiguous_cong [OF this]
  have "\<forall>r' \<in> set rs. \<not> ambiguous db1 r'"
    using Cons.prems unfolding same by simp
  from Cons.IH [OF this]
  obtain s where "core_loop marker clean gen (\<lambda>k. now (Suc k)) rs (db1, n1) = Inr s"
    by blast
  with step show ?case by simp
qed

lemma update_assets_unambiguous:
  assumes "\<forall>r \<in> set rs. \<not> ambiguous db r"
  shows "\<exists>db' s. update_assets clean gen now rs db = (db', Inr s)"
proof -
  let ?st0 = "\<lparr>table = db, done_results = [], matched = 0, found_missing = 0\<rparr>"
  from core_loop_unambiguous [OF assms, of "''Detected on network: ''" clean gen now 0]
  obtain c where c: "core_loop ''Detected on network: '' clean gen now rs (db, 0) = Inr c"
    by blast
  with reconcile_loop_core [of clean gen now rs ?st0]
  obtain st where "reconcile_loop clean gen now rs ?st0 = Inr st"
    by (cases "reconcile_loop clean gen now rs ?st0") auto
  then show ?thesis by (simp add: update_assets_def)
qed

lemma handle_results_unambiguous:
  assumes "\<forall>r \<in> set rs. \<not> ambiguous (cmd_table cst) r"
  shows "\<exists>cst'. handle_results clean gen now rs cst = Inr cst'"
proof -
  from core_loop_unambiguous [OF assms, of "''Auto-detected: ''" clean gen now
      "cmd_missing_found cst"]
  obtain c where c: "core_loop ''Auto-detected: '' clean gen now rs
      (cmd_table cst, cmd_missing_found cst) = Inr c"
    by blast
  with handle_loop_core [of clean gen now rs cst]
  obtain st where "handle_loop clean gen now rs cst = Inr st"
    by (cases "handle_loop clean gen now rs cst") auto
  then show ?thesis by (simp add: handle_results_def)
qed

text \<open>
  What a complete pass of \<open>scan_and_update_assets\<close> does to an asset in \<open>MAINTENANCE\<close> or
  \<open>RETIRED\<close> status that is hit.
\<close>

lemma maintenance_when_complete:
  assumes "update_assets clean gen now rs db = (db', Inr s)"
      and "j < length db"
      and "status (db ! j) = MAINTENANCE \<or> status (db ! j) = RETIRED"
      and "\<exists>r \<in> set rs. hit r (db ! j)"
  shows "status (db' ! j) = status (db ! j) \<and>
         location (db' ! j) = location (db ! j) \<and>
         (\<exists>k < length rs. hit (rs ! k) (db ! j) \<and>
            (\<forall>k' < length rs. k < k' \<longrightarrow> \<not> hit (rs ! k') (db ! j)) \<and>
            network_last_seen (db' ! j) = Some (now k) \<and>
            ip_address (db' ! j) = get_prep_value clean (Some (res_ip_address (rs ! k))))"
proof -
  note core = update_assets_core [OF assms(1)]
  from assms(3) have nm: "status (db ! j) \<noteq> MISSING" by auto
  from core_loop_rows [OF core] assms(2)
  have "status (db' ! j) =
          (if status (db ! j) = MISSING \<and> (\<exists>r \<in> set rs. hit r (db ! j)) then AVAILABLE
           else status (db ! j))"
    and "status (db ! j) \<noteq> MISSING \<longrightarrow> location (db' ! j) = location (db ! j)"
    by blast+
  with nm have a: "status (db' ! j) = status (db ! j)" "location (db' ! j) = location (db ! j)"
    by simp_all
  from a core_loop_last_hit [OF core assms(2,4)] show ?thesis by simp
qed

text \<open>
  What complete passes of \<open>scan_and_update_assets\<close> and of the management command do to
  an asset in \<open>MISSING\<close> status that is hit.
\<close>

lemma recovered_when_complete:
  assumes "update_assets clean gen now rs db = (db', Inr s)"
      and "handle_results clean gen2 now2 rs cst = Inr cst'" and "cmd_table cst = db"
      and "j < length db"
      and "status (db ! j) = MISSING"
      and "\<exists>r \<in> set rs. hit r (db ! j)"
  shows "status (db' ! j) = AVAILABLE \<and>
         (\<exists>r \<in> set rs. hit r (db ! j) \<and>
            location (db' ! j) = ''Detected on network: '' @ res_ip_address r) \<and>
         missing_found s =
           card {i. i < length db \<and> status (db ! i) = MISSING \<and> (\<exists>r \<in> set rs. hit r (db ! i))} \<and>
         j \<in> {i. i < length db \<and> status (db ! i) = MISSING \<and> (\<exists>r \<in> set rs. hit r (db ! i))} \<and>
         status (cmd_table cst' ! j) = AVAILABLE \<and>
         (\<exists>r \<in> set rs. hit r (db ! j) \<and>
            location (cmd_table cst' ! j) = ''Auto-detected: '' @ res_ip_address r) \<and>
         cmd_missing_found cst' =
           cmd_missing_found cst +
           card {i. i < length db \<and> status (db ! i) = MISSING \<and> (\<exists>r \<in> set rs. hit r (db ! i))}"
proof -
  note core1 = update_assets_core [OF assms(1)]
  note core2 = handle_results_core [OF assms(2), unfolded assms(3)]
  from core_loop_rows [OF core1] assms(4)
  have "status (db' ! j) =
          (if status (db ! j) = MISSING \<and> (\<exists>r \<in> set rs. hit r (db ! j)) then AVAILABLE
           else status (db ! j))"
    by blast
  with assms(5,6) have a1: "status (db' ! j) = AVAILABLE" by simp
  from core_loop_rows [OF core2] assms(4)
  have "status (cmd_table cst' ! j) =
          (if status (db ! j) = MISSING \<and> (\<exists>r \<in> set rs. hit r (db ! j)) then AVAILABLE
           else status (db ! j))"
    by blast
  with assms(5,6) have a2: "status (cmd_table cst' ! j) = AVAILABLE" by simp
  note l1 = core_loop_location [OF core1 assms(4,5,6)]
  note l2 = core_loop_location [OF core2 assms(4,5,6)]
  from core_loop_count [OF core1]
  have c1: "missing_found s =
      card {i. i < length db \<and> status (db ! i) = MISSING \<and> (\<exists>r \<in> set rs. hit r (db ! i))}"
    by simp
  note c2 = core_loop_count [OF core2]
  from assms(4,5,6)
  have m: "j \<in> {i. i < length db \<and> status (db ! i) = MISSING \<and> (\<exists>r \<in> set rs. hit r (db ! i))}"
    by simp
  from a1 l1 c1 m a2 l2 c2 show ?thesis by (intro conjI)
qed

text \<open>
  C8. The claim is that reconciliation refreshes the last-seen timestamp and the
  network address of every asset in \<open>MAINTENANCE\<close> or \<open>RETIRED\<close> status that a result
  matches. In \<open>twin_camera_table\<close> the camera's hardware address occurs twice. The pass
  over a result for the camera and a result for the mixer stops at the first with
  \<open>MultipleObjectsReturned\<close>; the mixer, which is in \<open>MAINTENANCE\<close> and is the one asset
  that the second result matches, keeps its empty last-seen timestamp and address.
\<close>

theorem maintenance_not_refreshed_counterexample:
  "status (twin_camera_table ! 1) = MAINTENANCE \<and>
   get_by_mac twin_camera_table (the (res_mac_address seen_mixer)) = Found 1 \<and>
   update_assets example_clean example_gen example_clock [seen_camera, seen_mixer]
       twin_camera_table =
     (twin_camera_table, Inl MultipleObjectsReturnedError) \<and>
   network_last_seen (twin_camera_table ! 1) = None \<and>
   ip_address (twin_camera_table ! 1) = None"
  by (simp add: twin_camera_table_def example_defs recon_defs)

text \<open>
  C8, as the code has it. Let no result of the scan be ambiguous for the table, and let
  an asset in \<open>MAINTENANCE\<close> or \<open>RETIRED\<close> status be hit by one of the results. The pass
  of \<open>scan_and_update_assets\<close> over the results returns its summary. After it the
  asset's status and location are what they were; its last-seen timestamp is the time
  of the last result that hits it, and its network address is the address of that
  result as the database stores it.
\<close>

theorem maintenance_status_unchanged:
  assumes "\<forall>r \<in> set rs. \<not> ambiguous db r"
      and "j < length db"
      and "status (db ! j) = MAINTENANCE \<or> status (db ! j) = RETIRED"
      and "\<exists>r \<in> set rs. hit r (db ! j)"
  shows "\<exists>db' s.
           update_assets clean gen now rs db = (db', Inr s) \<and>
           status (db' ! j) = status (db ! j) \<and>
           location (db' ! j) = location (db ! j) \<and>
           (\<exists>k < length rs. hit (rs ! k) (db ! j) \<and>
              (\<forall>k' < length rs. k < k' \<longrightarrow> \<not> hit (rs ! k') (db ! j)) \<and>
              network_last_seen (db' ! j) = Some (now k) \<and>
              ip_address (db' ! j) = get_prep_value clean (Some (res_ip_address (rs ! k))))"
proof -
  from update_assets_unambiguous [OF assms(1)]
  obtain db' s where run: "update_assets clean gen now rs db = (db', Inr s)"
    by blast
  from run maintenance_when_complete [OF run assms(2,3,4)] show ?thesis
    by blast
qed

theorem maintenance_status_unchanged_witness:
  "\<not> ambiguous example_table seen_camera \<and>
   \<not> ambiguous example_table unknown_host \<and>
   \<not> ambiguous example_table seen_mixer \<and>
   status (example_table ! 1) = MAINTENANCE \<and>
   hit seen_mixer (example_table ! 1) \<and>
   update_assets example_clean example_gen example_clock
       [seen_camera, unknown_host, seen_mixer] example_table =
     ([lost_camera\<lparr>network_last_seen := Some 1000, ip_address := Some ''10.0.0.5'',
                   status := AVAILABLE, location := ''Detected on network: 10.0.0.5''\<rparr>,
       mixer\<lparr>network_last_seen := Some 1002, ip_address := Some ''10.0.0.6''\<rparr>],
      Inr \<lparr>scanned = 3, sum_matched = 2, missing_found = 1,
           sum_results =
             [seen_camera\<lparr>res_asset_found := True, res_asset_id := Some 0,
                          res_asset_tag := Some ''UTV-CAM-0001''\<rparr>,
              unknown_host,
              seen_mixer\<lparr>res_asset_found := True, res_asset_id := Some 1,
                         res_asset_tag := Some ''UTV-MIX-0002''\<rparr>]\<rparr>)"
proof -
  have u: "\<not> ambiguous example_table seen_camera" "\<not> ambiguous example_table unknown_host"
    "\<not> ambiguous example_table seen_mixer"
    by (simp_all add: ambiguous_def example_defs recon_defs)
  then have un: "\<forall>r \<in> set [seen_camera, unknown_host, seen_mixer]. \<not> ambiguous example_table r"
    by simp
  have run: "update_assets example_clean example_gen example_clock
       [seen_camera, unknown_host, seen_mixer] example_table =
     ([lost_camera\<lparr>network_last_seen := Some 1000, ip_address := Some ''10.0.0.5'',
                   status := AVAILABLE, location := ''Detected on network: 10.0.0.5''\<rparr>,
       mixer\<lparr>network_last_seen := Some 1002, ip_address := Some ''10.0.0.6''\<rparr>],
      Inr \<lparr>scanned = 3, sum_matched = 2, missing_found = 1,
           sum_results =
             [seen_camera\<lparr>res_asset_found := True, res_asset_id := Some 0,
                          res_asset_tag := Some ''UTV-CAM-0001''\<rparr>,
              unknown_host,
              seen_mixer\<lparr>res_asset_found := True, res_asset_id := Some 1,
                         res_asset_tag := Some ''UTV-MIX-0002''\<rparr>]\<rparr>)"
    by (simp add: example_defs recon_defs)
  have j: "1 < length example_table" by (simp add: example_table_def)
  have st: "status (example_table ! 1) = MAINTENANCE"
    by (simp add: example_table_def mixer_def)
  then have st': "status (example_table ! 1) = MAINTENANCE \<or> status (example_table ! 1) = RETIRED"
    by simp
  have h: "hit seen_mixer (example_table ! 1)"
    by (simp add: hit_def example_defs truthy_def iexact_def upper_def upper_char_def)
  then have ex: "\<exists>r \<in> set [seen_camera, unknown_host, seen_mixer]. hit r (example_table ! 1)"
    by simp
  from maintenance_status_unchanged
         [OF un j st' ex, of example_clean example_gen example_clock] u st h run
  show ?thesis by simp
qed

text \<open>
  C4. The claim is that reconciliation recovers every asset in \<open>MISSING\<close> status that a
  result matches. In \<open>twin_mixer_table\<close> the mixer's hardware address occurs twice. The
  pass over a result for the mixer and a result for the camera stops at the first with
  \<open>MultipleObjectsReturned\<close>, in \<open>scan_and_update_assets\<close> and in the management command
  alike; the camera, which is \<open>MISSING\<close> and is the one asset that the second result
  matches, stays \<open>MISSING\<close>.
\<close>

theorem missing_asset_not_recovered_counterexample:
  "status (twin_mixer_table ! 0) = MISSING \<and>
   get_by_mac twin_mixer_table (the (res_mac_address seen_camera)) = Found 0 \<and>
   update_assets example_clean example_gen example_clock [seen_mixer, seen_camera]
       twin_mixer_table =
     (twin_mixer_table, Inl MultipleObjectsReturnedError) \<and>
   handle_results example_clean example_gen example_clock [seen_mixer, seen_camera]
       (example_cmd_state\<lparr>cmd_table := twin_mixer_table\<rparr>) =
     Inl (example_cmd_state\<lparr>cmd_table := twin_mixer_table\<rparr>)"
  by (simp add: twin_mixer_table_def example_defs recon_defs handle_results_def
      handle_result_def)

text \<open>
  C4, as the code has it. Let no result of the scan be ambiguous for the table, and let
  an asset in \<open>MISSING\<close> status be hit by one of the results \<open>rs\<close>. The passes of
  \<open>scan_and_update_assets\<close> and of the management command complete. After either, the
  asset's status is \<open>AVAILABLE\<close> and its location is the marker text followed by the
  network address of a result that hits it. The counter of recovered assets has grown
  by the number of assets that were \<open>MISSING\<close> and are hit: each of them counts once,
  however many results hit it.
\<close>

theorem missing_asset_recovered_once:
  assumes "\<forall>r \<in> set rs. \<not> ambiguous db r"
      and "cmd_table cst = db"
      and "j < length db"
      and "status (db ! j) = MISSING"
      and "\<exists>r \<in> set rs. hit r (db ! j)"
  shows "\<exists>db' s cst'.
           update_assets clean gen now rs db = (db', Inr s) \<and>
           handle_results clean gen2 now2 rs cst = Inr cst' \<and>
           status (db' ! j) = AVAILABLE \<and>
           (\<exists>r \<in> set rs. hit r (db ! j) \<and>
              location (db' ! j) = ''Detected on network: '' @ res_ip_address r) \<and>
           missing_found s =
             card {i. i < length db \<and> status (db ! i) = MISSING \<and>
                      (\<exists>r \<in> set rs. hit r (db ! i))} \<and>
           j \<in> {i. i < length db \<and> status (db ! i) = MISSING \<and> (\<exists>r \<in> set rs. hit r (db ! i))} \<and>
           status (cmd_table cst' ! j) = AVAILABLE \<and>
           (\<exists>r \<in> set rs. hit r (db ! j) \<and>
              location (cmd_table cst' ! j) = ''Auto-detected: '' @ res_ip_address r) \<and>
           cmd_missing_found cst' =
             cmd_missing_found cst +
             card {i. i < length db \<and> status (db ! i) = MISSING \<and>
                      (\<exists>r \<in> set rs. hit r (db ! i))}"
proof -
  from update_assets_unambiguous [OF assms(1)]
  obtain db' s where run1: "update_assets clean gen now rs db = (db', Inr s)"
    by blast
  from assms(1,2) have "\<forall>r \<in> set rs. \<not> ambiguous (cmd_table cst) r" by simp
  from handle_results_unambiguous [OF this]
  obtain cst' where run2: "handle_results clean gen2 now2 rs cst = Inr cst'"
    by blast
  from run1 run2 recovered_when_complete [OF run1 run2 assms(2,3,4,5)] show ?thesis
    by blast
qed

theorem missing_asset_recovered_once_witness:
  "\<not> ambiguous example_table seen_camera \<and>
   \<not> ambiguous example_table seen_mixer \<and>
   update_assets example_clean example_gen example_clock [seen_camera, seen_camera, seen_mixer] example_table =
     ([lost_camera\<lparr>network_last_seen := Some 1001, ip_address := Some ''10.0.0.5'',
                   status := AVAILABLE, location := ''Detected on network: 10.0.0.5''\<rparr>,
       mixer\<lparr>network_last_seen := Some 1002, ip_address := Some ''10.0.0.6''\<rparr>],
      Inr \<lparr>scanned = 3, sum_matched = 3, missing_found = 1,
           sum_results =
             [seen_camera\<lparr>res_asset_found := True, res_asset_id := Some 0,
                          res_asset_tag := Some ''UTV-CAM-0001''\<rparr>,
              seen_camera\<lparr>res_asset_found := True, res_asset_id := Some 0,
                          res_asset_tag := Some ''UTV-CAM-0001''\<rparr>,
              seen_mixer\<lparr>res_asset_found := True, res_asset_id := Some 1,
                         res_asset_tag := Some ''UTV-MIX-0002''\<rparr>]\<rparr>) \<and>
   handle_results example_clean example_gen example_clock [seen_camera, seen_camera, seen_mixer]
       example_cmd_state =
     Inr \<lparr>cmd_table =
            [lost_camera\<lparr>network_last_seen := Some 1001, ip_address := Some ''10.0.0.5'',
                          status := AVAILABLE, location := ''Auto-detected: 10.0.0.5''\<rparr>,
             mixer\<lparr>network_last_seen := Some 1002, ip_address := Some ''10.0.0.6''\<rparr>],
          stdout =
            [''[FOUND MISSING] UTV-CAM-0001 at 10.0.0.5'',
             ''[DETECTED] UTV-CAM-0001 at 10.0.0.5'',
             ''[DETECTED] UTV-MIX-0002 at 10.0.0.6'',
             replicate 50 CHR ''-'',
             ''Scan complete: 3 hosts up, 3 assets matched, 1 missing found''],
          found_count = 0, matched_count = 3, cmd_missing_found = 1\<rparr> \<and>
   status (example_table ! 0) = MISSING \<and>
   hit seen_camera (example_table ! 0)"
proof -
  have u: "\<not> ambiguous example_table seen_camera" "\<not> ambiguous example_table seen_mixer"
    by (simp_all add: ambiguous_def example_defs recon_defs)
  then have un: "\<forall>r \<in> set [seen_camera, seen_camera, seen_mixer]. \<not> ambiguous example_table r"
    by simp
  have run1: "update_assets example_clean example_gen example_clock [seen_camera, seen_camera, seen_mixer]
                example_table =
     ([lost_camera\<lparr>network_last_seen := Some 1001, ip_address := Some ''10.0.0.5'',
                   status := AVAILABLE, location := ''Detected on network: 10.0.0.5''\<rparr>,
       mixer\<lparr>network_last_seen := Some 1002, ip_address := Some ''10.0.0.6''\<rparr>],
      Inr \<lparr>scanned = 3, sum_matched = 3, missing_found = 1,
           sum_results =
             [seen_camera\<lparr>res_asset_found := True, res_asset_id := Some 0,
                          res_asset_tag := Some ''UTV-CAM-0001''\<rparr>,
              seen_camera\<lparr>res_asset_found := True, res_asset_id := Some 0,
                          res_asset_tag := Some ''UTV-CAM-0001''\<rparr>,
              seen_mixer\<lparr>res_asset_found := True, res_asset_id := Some 1,
                         res_asset_tag := Some ''UTV-MIX-0002''\<rparr>]\<rparr>)"
    by (simp add: example_defs recon_defs)
  have run2: "handle_results example_clean example_gen example_clock [seen_camera, seen_camera, seen_mixer]
       example_cmd_state =
     Inr \<lparr>cmd_table =
            [lost_camera\<lparr>network_last_seen := Some 1001, ip_address := Some ''10.0.0.5'',
                          status := AVAILABLE, location := ''Auto-detected: 10.0.0.5''\<rparr>,
             mixer\<lparr>network_last_seen := Some 1002, ip_address := Some ''10.0.0.6''\<rparr>],
          stdout =
            [''[FOUND MISSING] UTV-CAM-0001 at 10.0.0.5'',
             ''[DETECTED] UTV-CAM-0001 at 10.0.0.5'',
             ''[DETECTED] UTV-MIX-0002 at 10.0.0.6'',
             replicate 50 CHR ''-'',
             ''Scan complete: 3 hosts up, 3 assets matched, 1 missing found''],
          found_count = 0, matched_count = 3, cmd_missing_found = 1\<rparr>"
    by (simp add: example_defs cmd_defs)
  have t: "cmd_table example_cmd_state = example_table"
    by (simp add: example_cmd_state_def)
  have j: "0 < length example_table" by (simp add: example_table_def)
  have st: "status (example_table ! 0) = MISSING"
    by (simp add: example_table_def lost_camera_def)
  have h: "hit seen_camera (example_table ! 0)"
    by (simp add: hit_def example_defs truthy_def iexact_def upper_def upper_char_def)
  then have ex: "\<exists>r \<in> set [seen_camera, seen_camera, seen_mixer]. hit r (example_table ! 0)"
    by simp
  from missing_asset_recovered_once
         [OF un t j st ex, of example_clean example_gen example_clock example_gen example_clock]
       u run1 run2 st h
  show ?thesis by simp
qed

text \<open>
  C3. Let a pass of \<open>scan_and_update_assets\<close> over the results \<open>rs\<close> return its summary
  and leave the table \<open>db1\<close>. A second pass over the same results, started on \<open>db1\<close> at
  any later time, returns a summary too; it reports no recovered asset, and it leaves
  every asset's status, location, hardware address and network address as they are in
  \<open>db1\<close>.
\<close>

theorem reconciliation_idempotent:
  assumes "update_assets clean gen now rs db = (db1, Inr s1)"
  shows "\<exists>db2 s2.
           update_assets clean gen2 now2 rs db1 = (db2, Inr s2) \<and>
           missing_found s2 = 0 \<and>
           map status db2 = map status db1 \<and>
           map location db2 = map location db1 \<and>
           map mac_address db2 = map mac_address db1 \<and>
           map ip_address db2 = map ip_address db1"
proof -
  note core1 = update_assets_core [OF assms]
  note rows1 = core_loop_rows [OF core1]
  have macs1: "map mac_address db1 = map mac_address db" by (rule core_loop_macs [OF core1])
  have len1: "length db1 = length db" using rows1 by simp
  have hc: "hit r (db1 ! j) = hit r (db ! j)" if "j < length db" for r j
    using rows1 that by (intro hit_cong) simp
  \<comment> \<open>after the first pass no row that is hit is missing\<close>
  have settled: "status (db1 ! j) \<noteq> MISSING" if "j < length db1" "\<exists>r \<in> set rs. hit r (db1 ! j)" for j
  proof -
    from that len1 have j: "j < length db" by simp
    from that(2) have h: "\<exists>r \<in> set rs. hit r (db ! j)" by (simp add: hc [OF j])
    from rows1 j have "status (db1 ! j) =
        (if status (db ! j) = MISSING \<and> (\<exists>r \<in> set rs. hit r (db ! j)) then AVAILABLE
         else status (db ! j))" by blast
    with h show ?thesis by auto
  qed
  \<comment> \<open>the second pass completes\<close>
  let ?st0 = "\<lparr>table = db1, done_results = [], matched = 0, found_missing = 0\<rparr>"
  from core_loop_completes [OF core1 macs1, of "''Detected on network: ''" gen2 now2 0]
  obtain c where c: "core_loop ''Detected on network: '' clean gen2 now2 rs (db1, 0) = Inr c"
    by blast
  obtain db2 n2 where p: "c = (db2, n2)" by (cases c)
  note core2 = c [unfolded p]
  from reconcile_loop_core [of clean gen2 now2 rs ?st0] core2
  obtain st2 where st2: "reconcile_loop clean gen2 now2 rs ?st0 = Inr st2"
    and e2: "table st2 = db2" "found_missing st2 = n2"
    by (cases "reconcile_loop clean gen2 now2 rs ?st0") auto
  define s2 where "s2 = \<lparr>scanned = length (done_results st2), sum_matched = matched st2,
    missing_found = found_missing st2, sum_results = done_results st2\<rparr>"
  have run2: "update_assets clean gen2 now2 rs db1 = (db2, Inr s2)"
    using st2 e2 by (simp add: update_assets_def s2_def)
  note rows2 = core_loop_rows [OF core2]
  have len2: "length db2 = length db1" using rows2 by simp
  \<comment> \<open>no asset is recovered a second time\<close>
  have "{j. j < length db1 \<and> status (db1 ! j) = MISSING \<and> (\<exists>r \<in> set rs. hit r (db1 ! j))} = {}"
    using settled by blast
  with core_loop_count [OF core2] have n2: "n2 = 0" by simp
  then have zero: "missing_found s2 = 0" using e2 by (simp add: s2_def)
  \<comment> \<open>row by row\<close>
  have row: "status (db2 ! j) = status (db1 ! j) \<and> location (db2 ! j) = location (db1 ! j) \<and>
             mac_address (db2 ! j) = mac_address (db1 ! j) \<and>
             ip_address (db2 ! j) = ip_address (db1 ! j)" if j1: "j < length db1" for j
  proof (cases "\<exists>r \<in> set rs. hit r (db1 ! j)")
    case False
    with rows2 j1 have "db2 ! j = db1 ! j" by blast
    then show ?thesis by simp
  next
    case True
    from j1 len1 have j: "j < length db" by simp
    from True have h: "\<exists>r \<in> set rs. hit r (db ! j)" by (simp add: hc [OF j])
    from settled [OF j1 True] have nm: "status (db1 ! j) \<noteq> MISSING" .
    from rows2 j1 have r2: "mac_address (db2 ! j) = mac_address (db1 ! j)"
      "status (db2 ! j) =
         (if status (db1 ! j) = MISSING \<and> (\<exists>r \<in> set rs. hit r (db1 ! j)) then AVAILABLE
          else status (db1 ! j))"
      "status (db1 ! j) \<noteq> MISSING \<longrightarrow> location (db2 ! j) = location (db1 ! j)"
      by blast+
    from core_loop_last_hit [OF core1 j h] obtain k1 where
      k1: "k1 < length rs" "hit (rs ! k1) (db ! j)"
          "\<forall>k' < length rs. k1 < k' \<longrightarrow> \<not> hit (rs ! k') (db ! j)"
          "ip_address (db1 ! j) = get_prep_value clean (Some (res_ip_address (rs ! k1)))"
      by blast
    from core_loop_last_hit [OF core2 j1 True] obtain k2 where
      k2: "k2 < length rs" "hit (rs ! k2) (db1 ! j)"
          "\<forall>k' < length rs. k2 < k' \<longrightarrow> \<not> hit (rs ! k') (db1 ! j)"
          "ip_address (db2 ! j) = get_prep_value clean (Some (res_ip_address (rs ! k2)))"
      by blast
    from k2(2,3) have k2': "hit (rs ! k2) (db ! j)"
      "\<forall>k' < length rs. k2 < k' \<longrightarrow> \<not> hit (rs ! k') (db ! j)"
      by (simp_all add: hc [OF j])
    have "k1 = k2"
      by (rule last_hit_unique [where P = "\<lambda>r. hit r (db ! j)", OF k1(1,2,3) k2(1) k2'])
    with k1(4) k2(4) have ip: "ip_address (db2 ! j) = ip_address (db1 ! j)" by simp
    from r2 nm ip show ?thesis by simp
  qed
  have "map status db2 = map status db1" "map location db2 = map location db1"
    "map mac_address db2 = map mac_address db1" "map ip_address db2 = map ip_address db1"
    using len2 row by (simp_all add: list_eq_iff_nth_eq)
  with run2 zero show ?thesis by blast
qed


theorem reconciliation_idempotent_witness:
  "update_assets example_clean example_gen example_clock [seen_camera, unknown_host, seen_mixer] example_table =
     ([lost_camera\<lparr>network_last_seen := Some 1000, ip_address := Some ''10.0.0.5'',
                   status := AVAILABLE, location := ''Detected on network: 10.0.0.5''\<rparr>,
       mixer\<lparr>network_last_seen := Some 1002, ip_address := Some ''10.0.0.6''\<rparr>],
      Inr \<lparr>scanned = 3, sum_matched = 2, missing_found = 1,
           sum_results =
             [seen_camera\<lparr>res_asset_found := True, res_asset_id := Some 0,
                          res_asset_tag := Some ''UTV-CAM-0001''\<rparr>,
              unknown_host,
              seen_mixer\<lparr>res_asset_found := True, res_asset_id := Some 1,
                         res_asset_tag := Some ''UTV-MIX-0002''\<rparr>]\<rparr>) \<and>
   update_assets example_clean example_gen (\<lambda>k. 2000 + k) [seen_camera, unknown_host, seen_mixer]
       [lost_camera\<lparr>network_last_seen := Some 1000, ip_address := Some ''10.0.0.5'',
                    status := AVAILABLE, location := ''Detected on network: 10.0.0.5''\<rparr>,
        mixer\<lparr>network_last_seen := Some 1002, ip_address := Some ''10.0.0.6''\<rparr>] =
     ([lost_camera\<lparr>network_last_seen := Some 2000, ip_address := Some ''10.0.0.5'',
                   status := AVAILABLE, location := ''Detected on network: 10.0.0.5''\<rparr>,
       mixer\<lparr>network_last_seen := Some 2002, ip_address := Some ''10.0.0.6''\<rparr>],
      Inr \<lparr>scanned = 3, sum_matched = 2, missing_found = 0,
           sum_results =
             [seen_camera\<lparr>res_asset_found := True, res_asset_id := Some 0,
                          res_asset_tag := Some ''UTV-CAM-0001''\<rparr>,
              unknown_host,
              seen_mixer\<lparr>res_asset_found := True, res_asset_id := Some 1,
                         res_asset_tag := Some ''UTV-MIX-0002''\<rparr>]\<rparr>)"
proof -
  have run1: "update_assets example_clean example_gen example_clock [seen_camera, unknown_host, seen_mixer]
                example_table =
     ([lost_camera\<lparr>network_last_seen := Some 1000, ip_address := Some ''10.0.0.5'',
                   status := AVAILABLE, location := ''Detected on network: 10.0.0.5''\<rparr>,
       mixer\<lparr>network_last_seen := Some 1002, ip_address := Some ''10.0.0.6''\<rparr>],
      Inr \<lparr>scanned = 3, sum_matched = 2, missing_found = 1,
           sum_results =
             [seen_camera\<lparr>res_asset_found := True, res_asset_id := Some 0,
                          res_asset_tag := Some ''UTV-CAM-0001''\<rparr>,
              unknown_host,
              seen_mixer\<lparr>res_asset_found := True, res_asset_id := Some 1,
                         res_asset_tag := Some ''UTV-MIX-0002''\<rparr>]\<rparr>)"
    by (simp add: example_defs recon_defs)
  have run2: "update_assets example_clean example_gen (\<lambda>k. 2000 + k) [seen_camera, unknown_host, seen_mixer]
       [lost_camera\<lparr>network_last_seen := Some 1000, ip_address := Some ''10.0.0.5'',
                    status := AVAILABLE, location := ''Detected on network: 10.0.0.5''\<rparr>,
        mixer\<lparr>network_last_seen := Some 1002, ip_address := Some ''10.0.0.6''\<rparr>] =
     ([lost_camera\<lparr>network_last_seen := Some 2000, ip_address := Some ''10.0.0.5'',
                   status := AVAILABLE, location := ''Detected on network: 10.0.0.5''\<rparr>,
       mixer\<lparr>network_last_seen := Some 2002, ip_address := Some ''10.0.0.6''\<rparr>],
      Inr \<lparr>scanned = 3, sum_matched = 2, missing_found = 0,
           sum_results =
             [seen_camera\<lparr>res_asset_found := True, res_asset_id := Some 0,
                          res_asset_tag := Some ''UTV-CAM-0001''\<rparr>,
              unknown_host,
              seen_mixer\<lparr>res_asset_found := True, res_asset_id := Some 1,
                         res_asset_tag := Some ''UTV-MIX-0002''\<rparr>]\<rparr>)"
    by (simp add: example_defs recon_defs)
  from reconciliation_idempotent [OF run1, of example_gen "\<lambda>k. 2000 + k"] run1 run2
  show ?thesis
    by simp
qed

text \<open>
  C5. The claim is that a host whose hardware address matches no asset is counted in
  an unmatched count of the scan summary. The summary of \<open>scan_and_update_assets\<close> has
  three counts, and each of them is the same for a scan whose only host has an address
  that no asset has (one unmatched host) and for a scan whose only host has no
  hardware address (no unmatched host): none of them counts the unmatched hosts.
\<close>

theorem unmatched_host_not_counted_counterexample:
  "get_by_mac example_table (the (res_mac_address unknown_host)) = DoesNotExist \<and>
   res_mac_address silent_host = None \<and>
   snd (update_assets example_clean example_gen example_clock [unknown_host] example_table) =
     Inr \<lparr>scanned = 1, sum_matched = 0, missing_found = 0, sum_results = [unknown_host]\<rparr> \<and>
   snd (update_assets example_clean example_gen example_clock [silent_host] example_table) =
     Inr \<lparr>scanned = 1, sum_matched = 0, missing_found = 0, sum_results = [silent_host]\<rparr>"
  by (simp add: example_defs recon_defs)

text \<open>
  C5, as the code has it. Let a result carry a hardware address that no asset has.
  \<open>scan_and_update_assets\<close> passes over it: the table and both counters stay as they
  are, and the result stays in the list of results as the scanner made it, with
  \<open>asset_found\<close> false. The management command writes an \<open>[UNKNOWN]\<close> line and adds one
  to its counter of unknown devices; it leaves the table and its other counters as
  they are. In both, no asset is created and no field of an asset changes.
\<close>

theorem unmatched_host_leaves_registry:
  assumes "truthy (res_mac_address r)"
      and "\<forall>j < length db. \<not> iexact (mac_address (db ! j)) (the (res_mac_address r))"
      and "table st = db" and "cmd_table cst = db"
  shows "reconcile_result clean gen now r st = Inr (st\<lparr>done_results := done_results st @ [r]\<rparr>) \<and>
         handle_result clean gen now r cst =
           Inr (cst\<lparr>stdout := stdout cst @
                         [''[UNKNOWN] Device at '' @ res_ip_address r @ '' - '' @
                          the (res_mac_address r)],
                     found_count := found_count cst + 1\<rparr>)"
proof -
  from assms(2) have "get_by_mac db (the (res_mac_address r)) = DoesNotExist"
    by (simp add: get_by_mac_DoesNotExist)
  with assms(1,3,4) show ?thesis
    by (simp add: reconcile_result_def handle_result_def)
qed

theorem unmatched_host_leaves_registry_witness:
  "truthy (res_mac_address unknown_host) \<and>
   get_by_mac example_table (the (res_mac_address unknown_host)) = DoesNotExist \<and>
   reconcile_result example_clean example_gen 1000 unknown_host
       \<lparr>table = example_table, done_results = [], matched = 0, found_missing = 0\<rparr> =
     Inr \<lparr>table = example_table, done_results = [unknown_host], matched = 0,
          found_missing = 0\<rparr> \<and>
   handle_result example_clean example_gen 1000 unknown_host example_cmd_state =
     Inr \<lparr>cmd_table = example_table,
          stdout = [''[UNKNOWN] Device at 10.0.0.7 - DE:AD:BE:EF:00:01''],
          found_count = 1, matched_count = 0, cmd_missing_found = 0\<rparr>"
proof -
  have t: "truthy (res_mac_address unknown_host)"
    by (simp add: truthy_def unknown_host_def host_def)
  have g: "get_by_mac example_table (the (res_mac_address unknown_host)) = DoesNotExist"
    by (simp add: example_defs recon_defs)
  then have n: "\<forall>j < length example_table.
      \<not> iexact (mac_address (example_table ! j)) (the (res_mac_address unknown_host))"
    by (simp add: get_by_mac_DoesNotExist)
  have s1: "table \<lparr>table = example_table, done_results = [], matched = 0, found_missing = 0\<rparr> =
              example_table"
    by simp
  have s2: "cmd_table example_cmd_state = example_table"
    by (simp add: example_cmd_state_def)
  from unmatched_host_leaves_registry [OF t n s1 s2, of example_clean example_gen 1000] t g
  show ?thesis
    by (simp add: example_cmd_state_def unknown_host_def host_def)
qed

text \<open>
  The two entry points are the scan followed by the passes studied above.
\<close>

lemma scan_and_update_assets_eq:
  "fst (scan env 1 subnet) = Inr rs \<Longrightarrow>
   scan_and_update_assets env clean gen now subnet db = update_assets clean gen now rs db"
  by (simp add: scan_and_update_assets_def)

lemma handle_eq:
  "fst (scan env timeout subnet) = Inr rs \<Longrightarrow>
   handle env clean gen now subnet timeout db =
     handle_results clean gen now rs
       \<lparr>cmd_table = db,
        stdout = [''Initiating network scan on '' @ subnet @ ''...'',
                  ''Timeout: '' @ str_int timeout @ ''s per host'',
                  replicate 50 CHR ''-''],
        found_count = 0, matched_count = 0, cmd_missing_found = 0\<rparr>"
  by (simp add: handle_def Let_def)

text \<open>
  A run from end to end: the scan of \<open>10.0.0.4/30\<close> in the example environment finds the
  camera, and the reconciliation recovers it.
\<close>

lemma example_scan: "fst (scan example_env 1 ''10.0.0.4/30'') = Inr [seen_camera]"
  by (simp add: example_env_def scan_def scan_try_def list_hosts_def hosts_def
      max_prefixlen_def broadcast_address_def num_addresses_def upt_rec str_host_def
      dotted_quad_def str_nat.simps digit_char_def scan_host_def ping_host_def ping_argv_def
      str_int_def get_mac_address_def mac_pattern_def lower_def lower_char_def hex_lower_def
      upper_def upper_char_def seen_camera_def host_def)

lemma example_scan_and_update:
  "scan_and_update_assets example_env example_clean example_gen example_clock ''10.0.0.4/30'' example_table =
     ([lost_camera\<lparr>network_last_seen := Some 1000, ip_address := Some ''10.0.0.5'',
                   status := AVAILABLE, location := ''Detected on network: 10.0.0.5''\<rparr>,
       mixer],
      Inr \<lparr>scanned = 1, sum_matched = 1, missing_found = 1,
           sum_results =
             [seen_camera\<lparr>res_asset_found := True, res_asset_id := Some 0,
                          res_asset_tag := Some ''UTV-CAM-0001''\<rparr>]\<rparr>)"
  unfolding scan_and_update_assets_eq [OF example_scan]
  by (simp add: example_defs recon_defs)

end
